theory Spec2Isabelle
  imports Main "HOL-Library.Sublist"
begin

unbundle bit_operations_syntax

section \<open>JavaScript strings\<close>

text \<open>
  Strings are byte strings (\<open>char list\<close>): the text of a file is kept as its UTF-8 bytes,
  and a code point is recognised by its encoding. The string methods of the source are
  modelled on these lists.
\<close>

definition startsWith :: "string \<Rightarrow> string \<Rightarrow> bool" where
  "startsWith s t = prefix t s"

definition endsWith :: "string \<Rightarrow> string \<Rightarrow> bool" where
  "endsWith s t = suffix t s"

fun includes_str :: "string \<Rightarrow> string \<Rightarrow> bool" where
  "includes_str [] t = (t = [])"
| "includes_str (c # cs) t = (prefix t (c # cs) \<or> includes_str cs t)"

text \<open>JavaScript truthiness of a string: only the empty string is falsy.\<close>

definition truthy :: "string \<Rightarrow> bool" where
  "truthy s = (s \<noteq> [])"

text \<open>
  The white space and the line terminators of ECMAScript, which \<open>String.prototype.trim\<close>
  removes from both ends, each as its UTF-8 encoding: tab, line feed, vertical tab, form
  feed, carriage return, space, U+00A0, U+1680, U+2000 to U+200A, U+2028, U+2029, U+202F,
  U+205F, U+3000 and U+FEFF.
\<close>

definition js_whitespace :: "string list" where
  "js_whitespace =
     [[CHR 0x09], [CHR 0x0A], [CHR 0x0B], [CHR 0x0C], [CHR 0x0D], [CHR 0x20],
      [CHR 0xC2, CHR 0xA0],
      [CHR 0xE1, CHR 0x9A, CHR 0x80],
      [CHR 0xE2, CHR 0x80, CHR 0x80], [CHR 0xE2, CHR 0x80, CHR 0x81],
      [CHR 0xE2, CHR 0x80, CHR 0x82], [CHR 0xE2, CHR 0x80, CHR 0x83],
      [CHR 0xE2, CHR 0x80, CHR 0x84], [CHR 0xE2, CHR 0x80, CHR 0x85],
      [CHR 0xE2, CHR 0x80, CHR 0x86], [CHR 0xE2, CHR 0x80, CHR 0x87],
      [CHR 0xE2, CHR 0x80, CHR 0x88], [CHR 0xE2, CHR 0x80, CHR 0x89],
      [CHR 0xE2, CHR 0x80, CHR 0x8A],
      [CHR 0xE2, CHR 0x80, CHR 0xA8], [CHR 0xE2, CHR 0x80, CHR 0xA9],
      [CHR 0xE2, CHR 0x80, CHR 0xAF],
      [CHR 0xE2, CHR 0x81, CHR 0x9F],
      [CHR 0xE3, CHR 0x80, CHR 0x80],
      [CHR 0xEF, CHR 0xBB, CHR 0xBF]]"

text \<open>\<open>strip_leading ws s\<close> removes from the front of \<open>s\<close> every member of \<open>ws\<close> that
  starts it, until none does.\<close>

function strip_leading :: "string list \<Rightarrow> string \<Rightarrow> string" where
  "strip_leading ws s =
     (case find (\<lambda>e. e \<noteq> [] \<and> prefix e s) ws of
        None \<Rightarrow> s
      | Some e \<Rightarrow> strip_leading ws (drop (length e) s))"
  by pat_completeness auto
termination
proof (relation "measure (\<lambda>(ws, s). length s)")
  show "wf (measure (\<lambda>(ws, s). length s))" by simp
next
  fix ws :: "string list" and s e :: string
  assume "find (\<lambda>e. e \<noteq> [] \<and> prefix e s) ws = Some e"
  then have "e \<noteq> []" "prefix e s" by (auto simp: find_Some_iff)
  then have "length (drop (length e) s) < length s"
    by (cases s) (auto simp: prefix_def)
  then show "((ws, drop (length e) s), (ws, s)) \<in> measure (\<lambda>(ws, s). length s)" by simp
qed

declare strip_leading.simps [simp del]

text \<open>
  \<open>trim\<close> on the text decoded from a file. Bytes that are not valid UTF-8 decode to
  U+FFFD in the source; that is neither white space nor a character of a digest, and such
  bytes stay where they are here, so the trimmed text equals a digest in the model exactly
  when it does in the source.
\<close>

definition trim :: "string \<Rightarrow> string" where
  "trim s = rev (strip_leading (map rev js_whitespace) (rev (strip_leading js_whitespace s)))"

text \<open>\<open>Array.prototype.sort\<close> with a comparator: a stable sort; the comparator
  returns a negative number, zero or a positive number.\<close>

fun js_insert :: "('a \<Rightarrow> 'a \<Rightarrow> int) \<Rightarrow> 'a \<Rightarrow> 'a list \<Rightarrow> 'a list" where
  "js_insert cmp x [] = [x]"
| "js_insert cmp x (y # ys) = (if cmp x y \<le> 0 then x # y # ys else y # js_insert cmp x ys)"

definition js_sort :: "('a \<Rightarrow> 'a \<Rightarrow> int) \<Rightarrow> 'a list \<Rightarrow> 'a list" where
  "js_sort cmp xs = foldr (js_insert cmp) xs []"

section \<open>Node's \<open>path\<close> module\<close>

text \<open>
  The host is a POSIX one or Windows. The functions of the source that touch the file
  system are modelled on a POSIX host: there \<open>process.platform\<close> is not \<open>win32\<close> and the
  separator is \<open>/\<close>. \<open>getProjectForFile\<close> touches no file and takes \<open>path.sep\<close> and
  \<open>path.relative\<close> from the host; it is modelled for both.

  A path is cut into the segments between separators; \<open>normalizeString\<close> of Node drops
  empty and \<open>.\<close> segments and lets \<open>..\<close> remove the segment before it.
\<close>

datatype platform = Posix | Win32

definition process_platform :: string where
  "process_platform = ''linux''"

definition backslash :: char where
  "backslash = CHR 0x5C"

definition path_sep :: "platform \<Rightarrow> string" where
  "path_sep host = (case host of Posix \<Rightarrow> ''/'' | Win32 \<Rightarrow> [backslash])"

fun join_with :: "string \<Rightarrow> string list \<Rightarrow> string" where
  "join_with sep [] = []"
| "join_with sep [x] = x"
| "join_with sep (x # y # ys) = x @ sep @ join_with sep (y # ys)"

fun split_path :: "string \<Rightarrow> string list" where
  "split_path [] = [[]]"
| "split_path (c # cs) =
     (if c = CHR ''/'' then [] # split_path cs
      else (case split_path cs of [] \<Rightarrow> [[c]] | x # xs \<Rightarrow> (c # x) # xs))"

fun join_path :: "string list \<Rightarrow> string" where
  "join_path [] = []"
| "join_path [x] = x"
| "join_path (x # y # ys) = x @ ''/'' @ join_path (y # ys)"

definition norm_step :: "bool \<Rightarrow> string list \<Rightarrow> string \<Rightarrow> string list" where
  "norm_step up acc s =
     (if s = [] \<or> s = ''.'' then acc
      else if s = ''..'' then
        (case acc of
           [] \<Rightarrow> if up then [s] else []
         | t # ts \<Rightarrow> if t = ''..'' then (if up then s # acc else acc) else ts)
      else s # acc)"

definition norm_segs :: "bool \<Rightarrow> string list \<Rightarrow> string list" where
  "norm_segs up segs = rev (foldl (norm_step up) [] segs)"

definition isAbsolute :: "string \<Rightarrow> bool" where
  "isAbsolute p = prefix ''/'' p"

definition path_normalize :: "string \<Rightarrow> string" where
  "path_normalize p =
     (if p = [] then ''.''
      else
        let ab = isAbsolute p;
            tr = (last p = CHR ''/'');
            s = join_path (norm_segs (\<not> ab) (split_path p))
        in if s = [] then (if ab then ''/'' else if tr then ''./'' else ''.'')
           else (if ab then ''/'' else []) @ s @ (if tr then ''/'' else []))"

definition path_join :: "string list \<Rightarrow> string" where
  "path_join parts =
     (let given = filter (\<lambda>a. a \<noteq> []) parts
      in if given = [] then ''.'' else path_normalize (join_path given))"

text \<open>\<open>path.resolve(p)\<close> with one argument, in the working directory \<open>wd\<close> (an
  absolute path): the segments of the absolute, normalised path, and the path itself.\<close>

definition resolve_segs :: "string \<Rightarrow> string \<Rightarrow> string list" where
  "resolve_segs wd p =
     norm_segs False (split_path (if isAbsolute p then p else wd @ ''/'' @ p))"

definition path_resolve :: "string \<Rightarrow> string \<Rightarrow> string" where
  "path_resolve wd p = ''/'' @ join_path (resolve_segs wd p)"

text \<open>\<open>path.dirname\<close>: the loop of Node runs the index from the last character down
  to 1 and stops at the first separator that follows a non-separator.\<close>

fun dirname_end :: "string \<Rightarrow> nat \<Rightarrow> bool \<Rightarrow> nat option" where
  "dirname_end p 0 matchedSlash = None"
| "dirname_end p (Suc i) matchedSlash =
     (if p ! Suc i = CHR ''/''
      then (if \<not> matchedSlash then Some (Suc i) else dirname_end p i matchedSlash)
      else dirname_end p i False)"

definition path_dirname :: "string \<Rightarrow> string" where
  "path_dirname p =
     (if p = [] then ''.''
      else
        let hasRoot = (hd p = CHR ''/'')
        in case dirname_end p (length p - 1) True of
             None \<Rightarrow> if hasRoot then ''/'' else ''.''
           | Some e \<Rightarrow> if hasRoot \<and> e = 1 then ''//'' else take e p)"

definition path_basename :: "string \<Rightarrow> string" where
  "path_basename p =
     (case filter (\<lambda>s. s \<noteq> []) (split_path p) of [] \<Rightarrow> [] | x # xs \<Rightarrow> last (x # xs))"

fun common_prefix_len :: "'a list \<Rightarrow> 'a list \<Rightarrow> nat" where
  "common_prefix_len (x # xs) (y # ys) = (if x = y then Suc (common_prefix_len xs ys) else 0)"
| "common_prefix_len xs ys = 0"

text \<open>\<open>path.posix.relative(from, to)\<close>: both are resolved; one \<open>..\<close> for every segment
  of \<open>from\<close> below the common ancestor, then the segments of \<open>to\<close> below it.\<close>

definition posix_relative :: "string \<Rightarrow> string \<Rightarrow> string \<Rightarrow> string" where
  "posix_relative wd src dst =
     (if src = dst then []
      else
        let f = resolve_segs wd src;
            t = resolve_segs wd dst;
            k = common_prefix_len f t
        in join_path (replicate (length f - k) ''..'' @ drop k t))"

text \<open>
  \<open>path.win32\<close>, for paths on drives (\<open>C:\<close> and a separator, or relative to the working
  directory \<open>wd\<close>, itself such a path); UNC paths are outside the model. Both \<open>/\<close> and the
  back-slash separate segments; a resolved path is its drive followed by its segments;
  \<open>relative\<close> compares the resolved paths without regard to the case of ASCII letters
  and joins its result with back-slashes, and returns the resolved \<open>to\<close> when the drives
  differ.
\<close>

fun split_win32 :: "string \<Rightarrow> string list" where
  "split_win32 [] = [[]]"
| "split_win32 (c # cs) =
     (if c = CHR ''/'' \<or> c = backslash then [] # split_win32 cs
      else (case split_win32 cs of [] \<Rightarrow> [[c]] | x # xs \<Rightarrow> (c # x) # xs))"

definition is_letter :: "char \<Rightarrow> bool" where
  "is_letter c = ((65 \<le> (of_char c :: nat) \<and> (of_char c :: nat) \<le> 90)
                  \<or> (97 \<le> (of_char c :: nat) \<and> (of_char c :: nat) \<le> 122))"

definition to_lower :: "char \<Rightarrow> char" where
  "to_lower c = (if 65 \<le> (of_char c :: nat) \<and> (of_char c :: nat) \<le> 90
                 then char_of ((of_char c :: nat) + 32) else c)"

definition drive_of :: "string \<Rightarrow> string" where
  "drive_of p =
     (case p of
        d # c # r \<Rightarrow> if is_letter d \<and> c = CHR '':'' then [d, c] else []
      | _ \<Rightarrow> [])"

definition win32_resolve_segs :: "string \<Rightarrow> string \<Rightarrow> string list" where
  "win32_resolve_segs wd p =
     (let drive = drive_of p;
          rest = drop (length drive) p;
          rooted = (rest \<noteq> [] \<and> (hd rest = CHR ''/'' \<or> hd rest = backslash));
          home = drive_of wd
      in if drive = [] then
           home # norm_segs False
                    ((if rooted then [] else split_win32 (drop (length home) wd)) @ split_win32 rest)
         else
           drive # norm_segs False
                    ((if rooted \<or> map to_lower drive \<noteq> map to_lower home then []
                      else split_win32 (drop (length home) wd)) @ split_win32 rest))"

definition win32_resolve :: "string \<Rightarrow> string \<Rightarrow> string" where
  "win32_resolve wd p =
     (case win32_resolve_segs wd p of
        [] \<Rightarrow> []
      | drive # segs \<Rightarrow> drive @ [backslash] @ join_with [backslash] segs)"

definition win32_relative :: "string \<Rightarrow> string \<Rightarrow> string \<Rightarrow> string" where
  "win32_relative wd src dst =
     (if src = dst then []
      else
        let f = win32_resolve_segs wd src;
            t = win32_resolve_segs wd dst;
            k = common_prefix_len (map (map to_lower) f) (map (map to_lower) t)
        in if k = 0 then win32_resolve wd dst
           else join_with [backslash] (replicate (length f - k) ''..'' @ drop k t))"

text \<open>\<open>path.relative\<close> of the host.\<close>

definition path_relative :: "platform \<Rightarrow> string \<Rightarrow> string \<Rightarrow> string \<Rightarrow> string" where
  "path_relative host wd src dst =
     (case host of
        Posix \<Rightarrow> posix_relative wd src dst
      | Win32 \<Rightarrow> win32_relative wd src dst)"

section \<open>The file system\<close>

text \<open>
  A file system is a tree of directories and regular files, and the working directory
  of the process. A directory lists its entries in the order \<open>readdirSync\<close> returns them.
  There are no symbolic links and no permissions: the errors of the model are a missing
  entry, a file where a directory is needed and a directory where a file is needed. The
  working directory is an absolute path.
\<close>

datatype node = File string | Dir "(string \<times> node) list"

record fsys =
  tree :: node
  cwd :: string

datatype errno = ENOENT | ENOTDIR | EISDIR

datatype error =
    FsError errno string
  | CommandExited "int option"
  | SpawnError string

fun lookup_node :: "node \<Rightarrow> string list \<Rightarrow> errno + node" where
  "lookup_node n [] = Inr n"
| "lookup_node (File c) (s # ss) = Inl ENOTDIR"
| "lookup_node (Dir es) (s # ss) =
     (case map_of es s of None \<Rightarrow> Inl ENOENT | Some ch \<Rightarrow> lookup_node ch ss)"

text \<open>
  The file system resolves a path one segment after the other, from the root for an
  absolute path and from the working directory otherwise: every segment is looked up in
  a directory that exists. An empty segment and \<open>.\<close> stay in the directory, \<open>..\<close> goes to its
  parent (the root is its own parent), a name goes to the entry of that name. So a
  segment after a regular file fails with \<open>ENOTDIR\<close>, also the empty one a trailing
  separator leaves, and \<open>..\<close> after a missing directory fails with \<open>ENOENT\<close>. \<open>walk root at
  segs\<close> returns the place reached from \<open>at\<close>, as the names from the root.
\<close>

fun walk :: "node \<Rightarrow> string list \<Rightarrow> string list \<Rightarrow> errno + string list" where
  "walk root at [] = Inr at"
| "walk root at (s # ss) =
     (case lookup_node root at of
        Inl e \<Rightarrow> Inl e
      | Inr (File c) \<Rightarrow> Inl ENOTDIR
      | Inr (Dir es) \<Rightarrow>
          if s = [] \<or> s = ''.'' then walk root at ss
          else if s = ''..'' then walk root (butlast at) ss
          else (case map_of es s of
                  None \<Rightarrow> Inl ENOENT
                | Some ch \<Rightarrow> walk root (at @ [s]) ss))"

text \<open>Where the walk along a path starts.\<close>

definition walk_start :: "fsys \<Rightarrow> string \<Rightarrow> string list" where
  "walk_start fs p = (if isAbsolute p then [] else norm_segs False (split_path (cwd fs)))"

text \<open>The place a path names, if it names one; the empty path names nothing.\<close>

definition real_path :: "fsys \<Rightarrow> string \<Rightarrow> errno + string list" where
  "real_path fs p =
     (if p = [] then Inl ENOENT else walk (tree fs) (walk_start fs p) (split_path p))"

definition node_at :: "fsys \<Rightarrow> string \<Rightarrow> errno + node" where
  "node_at fs p =
     (case real_path fs p of
        Inl e \<Rightarrow> Inl e
      | Inr at \<Rightarrow> lookup_node (tree fs) at)"

definition existsSync :: "fsys \<Rightarrow> string \<Rightarrow> bool" where
  "existsSync fs p = (case node_at fs p of Inl e \<Rightarrow> False | Inr n \<Rightarrow> True)"

text \<open>\<open>fs.statSync(p).isDirectory()\<close>\<close>

definition statSync_isDirectory :: "fsys \<Rightarrow> string \<Rightarrow> error + bool" where
  "statSync_isDirectory fs p =
     (case node_at fs p of
        Inl e \<Rightarrow> Inl (FsError e p)
      | Inr (File c) \<Rightarrow> Inr False
      | Inr (Dir es) \<Rightarrow> Inr True)"

definition readFileSync :: "fsys \<Rightarrow> string \<Rightarrow> error + string" where
  "readFileSync fs p =
     (case node_at fs p of
        Inl e \<Rightarrow> Inl (FsError e p)
      | Inr (File c) \<Rightarrow> Inr c
      | Inr (Dir es) \<Rightarrow> Inl (FsError EISDIR p))"

text \<open>\<open>fs.readdirSync(p, { withFileTypes: true })\<close>\<close>

definition readdirSync :: "fsys \<Rightarrow> string \<Rightarrow> error + (string \<times> node) list" where
  "readdirSync fs p =
     (case node_at fs p of
        Inl e \<Rightarrow> Inl (FsError e p)
      | Inr (File c) \<Rightarrow> Inl (FsError ENOTDIR p)
      | Inr (Dir es) \<Rightarrow> Inr es)"

fun upd_entry :: "string \<Rightarrow> node \<Rightarrow> (string \<times> node) list \<Rightarrow> (string \<times> node) list" where
  "upd_entry k v [] = [(k, v)]"
| "upd_entry k v ((k', v') # es) = (if k' = k then (k, v) # es else (k', v') # upd_entry k v es)"

fun write_node :: "node \<Rightarrow> string list \<Rightarrow> string \<Rightarrow> errno + node" where
  "write_node (File old) [] c = Inr (File c)"
| "write_node (Dir es) [] c = Inl EISDIR"
| "write_node (File old) (s # ss) c = Inl ENOTDIR"
| "write_node (Dir es) (s # ss) c =
     (case map_of es s of
        None \<Rightarrow> if ss = [] then Inr (Dir (upd_entry s (File c) es)) else Inl ENOENT
      | Some ch \<Rightarrow>
          (case write_node ch ss c of
             Inl e \<Rightarrow> Inl e
           | Inr ch' \<Rightarrow> Inr (Dir (upd_entry s ch' es))))"

text \<open>
  \<open>fs.writeFileSync(p, c)\<close> creates or overwrites a regular file in an existing directory:
  the path up to its last segment is resolved, and the last segment names the file there.
  A path that ends in a separator, in \<open>.\<close> or in \<open>..\<close> names a directory if it names
  anything.
\<close>

definition writeFileSync :: "fsys \<Rightarrow> string \<Rightarrow> string \<Rightarrow> error + fsys" where
  "writeFileSync fs p c =
     (if p = [] then Inl (FsError ENOENT p)
      else
        let segs = split_path p;
            name = last segs
        in if name = [] \<or> name = ''.'' \<or> name = ''..'' then
             (case node_at fs p of
                Inl e \<Rightarrow> Inl (FsError e p)
              | Inr n \<Rightarrow> Inl (FsError EISDIR p))
           else
             (case walk (tree fs) (walk_start fs p) (butlast segs) of
                Inl e \<Rightarrow> Inl (FsError e p)
              | Inr dir \<Rightarrow>
                  (case write_node (tree fs) (dir @ [name]) c of
                     Inl e \<Rightarrow> Inl (FsError e p)
                   | Inr t \<Rightarrow> Inr (fs\<lparr>tree := t\<rparr>))))"

section \<open>MD5 (\<open>crypto.createHash('md5')\<close>)\<close>

text \<open>
  RFC 1321 on 32-bit words, written as natural numbers with the wrap-around modulo
  \<open>2^32\<close> spelled out. Bytes are natural numbers below 256.
\<close>

definition md5_K :: "nat list" where
  "md5_K = [0xd76aa478, 0xe8c7b756, 0x242070db, 0xc1bdceee, 0xf57c0faf, 0x4787c62a, 0xa8304613, 0xfd469501, 0x698098d8, 0x8b44f7af, 0xffff5bb1, 0x895cd7be, 0x6b901122, 0xfd987193, 0xa679438e, 0x49b40821, 0xf61e2562, 0xc040b340, 0x265e5a51, 0xe9b6c7aa, 0xd62f105d, 0x02441453, 0xd8a1e681, 0xe7d3fbc8, 0x21e1cde6, 0xc33707d6, 0xf4d50d87, 0x455a14ed, 0xa9e3e905, 0xfcefa3f8, 0x676f02d9, 0x8d2a4c8a, 0xfffa3942, 0x8771f681, 0x6d9d6122, 0xfde5380c, 0xa4beea44, 0x4bdecfa9, 0xf6bb4b60, 0xbebfbc70, 0x289b7ec6, 0xeaa127fa, 0xd4ef3085, 0x04881d05, 0xd9d4d039, 0xe6db99e5, 0x1fa27cf8, 0xc4ac5665, 0xf4292244, 0x432aff97, 0xab9423a7, 0xfc93a039, 0x655b59c3, 0x8f0ccc92, 0xffeff47d, 0x85845dd1, 0x6fa87e4f, 0xfe2ce6e0, 0xa3014314, 0x4e0811a1, 0xf7537e82, 0xbd3af235, 0x2ad7d2bb, 0xeb86d391]"

definition md5_s :: "nat list" where
  "md5_s = [7, 12, 17, 22, 7, 12, 17, 22, 7, 12, 17, 22, 7, 12, 17, 22,
            5, 9, 14, 20, 5, 9, 14, 20, 5, 9, 14, 20, 5, 9, 14, 20,
            4, 11, 16, 23, 4, 11, 16, 23, 4, 11, 16, 23, 4, 11, 16, 23,
            6, 10, 15, 21, 6, 10, 15, 21, 6, 10, 15, 21, 6, 10, 15, 21]"

definition add32 :: "nat \<Rightarrow> nat \<Rightarrow> nat" where
  "add32 x y = (x + y) mod 0x100000000"

definition not32 :: "nat \<Rightarrow> nat" where
  "not32 x = x XOR 0xffffffff"

definition rotl32 :: "nat \<Rightarrow> nat \<Rightarrow> nat" where
  "rotl32 x n = (x * 2 ^ n) mod 0x100000000 + x div 2 ^ (32 - n)"

definition md5_F :: "nat \<Rightarrow> nat \<Rightarrow> nat \<Rightarrow> nat \<Rightarrow> nat" where
  "md5_F i b c d =
     (if i < 16 then (b AND c) OR (not32 b AND d)
      else if i < 32 then (d AND b) OR (not32 d AND c)
      else if i < 48 then b XOR c XOR d
      else c XOR (b OR not32 d))"

definition md5_g :: "nat \<Rightarrow> nat" where
  "md5_g i =
     (if i < 16 then i
      else if i < 32 then (5 * i + 1) mod 16
      else if i < 48 then (3 * i + 5) mod 16
      else (7 * i) mod 16)"

fun md5_round :: "nat list \<Rightarrow> nat \<Rightarrow> nat \<times> nat \<times> nat \<times> nat \<Rightarrow> nat \<times> nat \<times> nat \<times> nat" where
  "md5_round m i (a, b, c, d) =
     (let f = add32 (add32 (add32 (md5_F i b c d) a) (md5_K ! i)) (m ! md5_g i)
      in (d, add32 b (rotl32 f (md5_s ! i)), b, c))"

text \<open>The rounds \<open>i = lo, ..., hi - 1\<close> of one block.\<close>

function md5_loop :: "nat list \<Rightarrow> nat \<Rightarrow> nat \<Rightarrow> nat \<times> nat \<times> nat \<times> nat \<Rightarrow> nat \<times> nat \<times> nat \<times> nat" where
  "md5_loop m i hi h = (if i < hi then md5_loop m (i + 1) hi (md5_round m i h) else h)"
  by pat_completeness auto
termination
  by (relation "measure (\<lambda>(m, i, hi, h). hi - i)") auto

declare md5_loop.simps [simp del]

definition md5_block :: "nat \<times> nat \<times> nat \<times> nat \<Rightarrow> nat list \<Rightarrow> nat \<times> nat \<times> nat \<times> nat" where
  "md5_block h m =
     (case h of (a0, b0, c0, d0) \<Rightarrow>
        case md5_loop m 0 64 h of (a, b, c, d) \<Rightarrow>
          (add32 a0 a, add32 b0 b, add32 c0 c, add32 d0 d))"

fun le_bytes :: "nat \<Rightarrow> nat \<Rightarrow> nat list" where
  "le_bytes 0 v = []"
| "le_bytes (Suc k) v = (v mod 256) # le_bytes k (v div 256)"

definition md5_pad :: "nat list \<Rightarrow> nat list" where
  "md5_pad bs = bs @ [0x80] @ replicate ((64 - (length bs + 9) mod 64) mod 64) 0
                   @ le_bytes 8 (8 * length bs)"

fun words_le :: "nat list \<Rightarrow> nat list" where
  "words_le (b0 # b1 # b2 # b3 # r) =
     (b0 + 0x100 * b1 + 0x10000 * b2 + 0x1000000 * b3) # words_le r"
| "words_le r = []"

fun chop :: "nat \<Rightarrow> 'a list \<Rightarrow> 'a list list" where
  "chop n xs = (if n = 0 \<or> xs = [] then [] else take n xs # chop n (drop n xs))"

declare chop.simps [simp del]

definition md5_init :: "nat \<times> nat \<times> nat \<times> nat" where
  "md5_init = (0x67452301, 0xefcdab89, 0x98badcfe, 0x10325476)"

definition md5_bytes :: "nat list \<Rightarrow> nat list" where
  "md5_bytes bs =
     (case foldl md5_block md5_init (chop 16 (words_le (md5_pad bs))) of
        (a, b, c, d) \<Rightarrow> concat (map (le_bytes 4) [a, b, c, d]))"

definition hex_chars :: string where
  "hex_chars = ''0123456789abcdef''"

definition hex_digit :: "nat \<Rightarrow> char" where
  "hex_digit n = hex_chars ! n"

definition hex_byte :: "nat \<Rightarrow> string" where
  "hex_byte b = [hex_digit (b div 16), hex_digit (b mod 16)]"

text \<open>\<open>crypto.createHash('md5').update(content).digest('hex')\<close>\<close>

definition md5_hex :: "string \<Rightarrow> string" where
  "md5_hex content = concat (map hex_byte (md5_bytes (map of_char content)))"

section \<open>The hash store (\<open>venv/hash.ts\<close>)\<close>

definition HASH_FILENAME :: string where
  "HASH_FILENAME = ''.requirements-hash''"

definition hashFile :: "fsys \<Rightarrow> string \<Rightarrow> error + string" where
  "hashFile fs filePath =
     (case readFileSync fs filePath of
        Inl e \<Rightarrow> Inl e
      | Inr content \<Rightarrow> Inr (md5_hex content))"

definition readStoredHash :: "fsys \<Rightarrow> string \<Rightarrow> error + string option" where
  "readStoredHash fs venvPath =
     (let hashPath = path_join [venvPath, HASH_FILENAME]
      in if \<not> existsSync fs hashPath then Inr None
         else (case readFileSync fs hashPath of
                 Inl e \<Rightarrow> Inl e
               | Inr s \<Rightarrow> Inr (Some (trim s))))"

definition writeHash :: "fsys \<Rightarrow> string \<Rightarrow> string \<Rightarrow> error + fsys" where
  "writeHash fs venvPath hash =
     writeFileSync fs (path_join [venvPath, HASH_FILENAME]) (hash @ [CHR 0x0A])"

definition isVenvStale :: "fsys \<Rightarrow> string \<Rightarrow> string \<Rightarrow> error + bool" where
  "isVenvStale fs venvPath requirementsPath =
     (case readStoredHash fs venvPath of
        Inl e \<Rightarrow> Inl e
      | Inr None \<Rightarrow> Inr True
      | Inr (Some stored) \<Rightarrow>
          (case hashFile fs requirementsPath of
             Inl e \<Rightarrow> Inl e
           | Inr current \<Rightarrow> Inr (stored \<noteq> current)))"

text \<open>The candidates of \<open>findRequirementsFile\<close>, in the order of their priority.\<close>

fun first_existing :: "fsys \<Rightarrow> string \<Rightarrow> string list \<Rightarrow> string option" where
  "first_existing fs projectPath [] = None"
| "first_existing fs projectPath (name # names) =
     (let full = path_join [projectPath, name]
      in if existsSync fs full then Some full else first_existing fs projectPath names)"

definition findRequirementsFile :: "fsys \<Rightarrow> string \<Rightarrow> string option" where
  "findRequirementsFile fs projectPath =
     first_existing fs projectPath
       [''requirements.txt'', ''requirements-dev.txt'', ''requirements-cpu.txt'']"


section \<open>Settings (\<open>config.ts\<close>)\<close>

text \<open>The two settings the core reads, as the editor's configuration returns them.\<close>

record config =
  preferredManagers :: "string list"
  excludePatterns :: "string list"

definition default_config :: config where
  "default_config =
     \<lparr>preferredManagers = [''uv'', ''venv+pip''],
      excludePatterns = [''*.venv'', ''__pycache__'', ''.pytest_cache'', ''.mypy_cache'',
                         ''.ruff_cache'', ''node_modules'']\<rparr>"

section \<open>The package manager (\<open>venv/packageManager.ts\<close>)\<close>

text \<open>A \<open>PackageManager\<close> is a string at run time: the cast of the first preferred
  manager checks nothing.\<close>

definition detectPackageManager :: "config \<Rightarrow> fsys \<Rightarrow> string \<Rightarrow> error + string" where
  "detectPackageManager cfg fs projectPath =
     (if existsSync fs (path_join [projectPath, ''uv.lock'']) then Inr ''uv''
      else
        let pyproject = path_join [projectPath, ''pyproject.toml''];
            fallthrough =
              (if existsSync fs (path_join [projectPath, ''requirements.txt'']) then ''venv+pip''
               else (case preferredManagers cfg of [] \<Rightarrow> ''venv+pip'' | p # ps \<Rightarrow> p))
        in if existsSync fs pyproject then
             (case readFileSync fs pyproject of
                Inl e \<Rightarrow> Inl e
              | Inr content \<Rightarrow>
                  if includes_str content ''[tool.uv]'' then Inr ''uv''
                  else if includes_str content ''[project]''
                          \<and> includes_str content ''dependencies = ['' then Inr ''uv''
                  else Inr fallthrough)
           else Inr fallthrough)"

section \<open>The world outside the process\<close>

text \<open>
  What an external command does is not in the source: the host decides whether the
  \<open>uv --version\<close> probe succeeds, and what a spawned command does to the file system and
  how it ends (closed with an exit code, \<open>None\<close> when a signal ended it, or not spawned at
  all). The trace records, in order, every process the code starts, every file it writes
  and what it sends to the output channel.
\<close>

datatype outcome = Exited "int option" | SpawnFailed string

record env =
  settings :: config
  uv_available :: bool
  exec_cmd :: "string \<Rightarrow> string list \<Rightarrow> string \<Rightarrow> fsys \<Rightarrow> fsys \<times> outcome"

datatype event =
    Probe string "string list"
  | Spawn string "string list" string outcome
  | WriteFile string string
  | ChannelCreate string
  | ChannelShow
  | ChannelLine string

record world =
  w_fs :: fsys
  w_trace :: "event list"

definition emit :: "event \<Rightarrow> world \<Rightarrow> world" where
  "emit e w = w\<lparr>w_trace := w_trace w @ [e]\<rparr>"

definition isUvAvailable :: "env \<Rightarrow> world \<Rightarrow> world \<times> bool" where
  "isUvAvailable host w = (emit (Probe ''uv'' [''--version'']) w, uv_available host)"

definition resolvePackageManager :: "env \<Rightarrow> world \<Rightarrow> string \<Rightarrow> world \<times> (error + string)" where
  "resolvePackageManager host w projectPath =
     (case detectPackageManager (settings host) (w_fs w) projectPath of
        Inl e \<Rightarrow> (w, Inl e)
      | Inr detected \<Rightarrow>
          if detected = ''uv'' then
            (case isUvAvailable host w of
               (w', ok) \<Rightarrow> if \<not> ok then (w', Inr ''venv+pip'') else (w', Inr detected))
          else (w, Inr detected))"

section \<open>The venv locator (\<open>discovery/venv.ts\<close>)\<close>

definition getVenvPython :: "string \<Rightarrow> string" where
  "getVenvPython venvPath =
     (if process_platform = ''win32'' then path_join [venvPath, ''Scripts'', ''python.exe'']
      else path_join [venvPath, ''bin'', ''python''])"

definition getVenvPip :: "string \<Rightarrow> string" where
  "getVenvPip venvPath =
     (if process_platform = ''win32'' then path_join [venvPath, ''Scripts'', ''pip.exe'']
      else path_join [venvPath, ''bin'', ''pip''])"

definition isVenvValid :: "fsys \<Rightarrow> string \<Rightarrow> bool" where
  "isVenvValid fs venvPath = existsSync fs (getVenvPython venvPath)"

text \<open>\<open>getProjectForFile\<close> on the host \<open>host\<close>, in the working directory \<open>wd\<close>; string
  lengths are counted in bytes.\<close>

definition getProjectForFile ::
    "platform \<Rightarrow> string \<Rightarrow> string \<Rightarrow> string \<Rightarrow> string list \<Rightarrow> string option" where
  "getProjectForFile host wd filePath workspaceRoot subprojectNames =
     (let rel = path_relative host wd workspaceRoot filePath;
          sorted = js_sort (\<lambda>a b. int (length b) - int (length a)) subprojectNames
      in find (\<lambda>sp. startsWith rel (sp @ path_sep host) \<or> startsWith rel (sp @ ''/'')) sorted)"

section \<open>Project discovery (\<open>discovery/projects.ts\<close>)\<close>

datatype marker = RequirementsTxt | PyprojectToml | PyFiles

record SubProject =
  sp_name :: string
  sp_absolutePath :: string
  sp_markers :: "marker list"

definition ALWAYS_SKIP :: "string list" where
  "ALWAYS_SKIP = [''tools'', ''out'', ''__pycache__'', ''node_modules'', ''.venv'', ''venv'',
                  ''.git'', ''.github'', ''.vscode'', ''.devcontainer'']"

definition shouldSkip :: "string list \<Rightarrow> string \<Rightarrow> bool" where
  "shouldSkip patterns nm =
     (startsWith nm ''.'' \<or> nm \<in> set ALWAYS_SKIP \<or>
      list_ex (\<lambda>p. includes_str nm (filter (\<lambda>c. c \<noteq> CHR ''*'') p)) patterns)"

text \<open>
  The scan walks the tree it reads: \<open>fullPath\<close> is an entry \<open>readdirSync(basePath)\<close> has
  just listed as a directory, so what \<open>existsSync\<close> and \<open>readdirSync\<close> find below
  \<open>fullPath\<close> are the entries of that child. \<open>isProjectDir\<close> and the recursive scan
  take these entries.
\<close>

definition isProjectDir :: "(string \<times> node) list \<Rightarrow> marker list" where
  "isProjectDir entries =
     (let m1 = (if map_of entries ''requirements.txt'' \<noteq> None then [RequirementsTxt] else []);
          m2 = m1 @ (if map_of entries ''pyproject.toml'' \<noteq> None then [PyprojectToml] else [])
      in if m2 = [] then
           (if list_ex (\<lambda>(nm, n). (case n of File c \<Rightarrow> True | Dir es \<Rightarrow> False) \<and> endsWith nm ''.py'')
                 entries
            then [PyFiles] else [])
         else m2)"

fun scan_entries :: "string list \<Rightarrow> (string \<times> node) list \<Rightarrow> string \<Rightarrow> string \<Rightarrow> SubProject list" where
  "scan_entries patterns [] basePath relativePath = []"
| "scan_entries patterns ((nm, File c) # rest) basePath relativePath =
     scan_entries patterns rest basePath relativePath"
| "scan_entries patterns ((nm, Dir sub) # rest) basePath relativePath =
     (if shouldSkip patterns nm then []
      else
        let fullPath = path_join [basePath, nm];
            relPath = (if truthy relativePath then relativePath @ ''/'' @ nm else nm);
            found = isProjectDir sub
        in if found \<noteq> [] then
             [\<lparr>sp_name = relPath, sp_absolutePath = fullPath, sp_markers = found\<rparr>]
           else scan_entries patterns sub fullPath relPath)
     @ scan_entries patterns rest basePath relativePath"

definition scan :: "string list \<Rightarrow> fsys \<Rightarrow> string \<Rightarrow> string \<Rightarrow> SubProject list" where
  "scan patterns fs basePath relativePath =
     (case readdirSync fs basePath of
        Inl e \<Rightarrow> []
      | Inr entries \<Rightarrow> scan_entries patterns entries basePath relativePath)"

text \<open>\<open>localeCompare\<close> depends on the host's locale; it is a parameter.\<close>

definition discoverSubprojects ::
    "config \<Rightarrow> (string \<Rightarrow> string \<Rightarrow> int) \<Rightarrow> fsys \<Rightarrow> string \<Rightarrow> SubProject list" where
  "discoverSubprojects cfg localeCompare fs workspaceRoot =
     js_sort (\<lambda>a b. localeCompare (sp_name a) (sp_name b))
       (scan (excludePatterns cfg) fs workspaceRoot [])"

section \<open>The venv lifecycle (\<open>venv/manager.ts\<close>)\<close>

record options =
  opt_force :: "bool option"
  opt_requirementsFile :: "string option"

record CreateVenvResult =
  res_venvPath :: string
  res_manager :: string
  res_created :: bool
  res_updated :: bool

definition runCommand ::
    "env \<Rightarrow> string \<Rightarrow> string list \<Rightarrow> string \<Rightarrow> world \<Rightarrow> world \<times> (error + unit)" where
  "runCommand host command args dir w =
     (let w1 = emit (ChannelLine (''> '' @ command @ '' '' @ join_with '' '' args)) w
      in case exec_cmd host command args dir (w_fs w1) of
           (fs', out) \<Rightarrow>
             (emit (Spawn command args dir out) (w1\<lparr>w_fs := fs'\<rparr>),
              case out of
                Exited code \<Rightarrow> if code = Some 0 then Inr () else Inl (CommandExited code)
              | SpawnFailed msg \<Rightarrow> Inl (SpawnError msg)))"

text \<open>Truthiness of \<open>reqFile\<close>, a string or \<open>undefined\<close>.\<close>

definition present :: "string option \<Rightarrow> bool" where
  "present r = (case r of None \<Rightarrow> False | Some s \<Rightarrow> truthy s)"

text \<open>The guard of the fast path:
  \<open>exists && !force && reqFile && !isVenvStale(venvPath, reqFile)\<close>, evaluated from the
  left; \<open>isVenvStale\<close> can raise.\<close>

definition up_to_date :: "fsys \<Rightarrow> bool \<Rightarrow> bool \<Rightarrow> string option \<Rightarrow> string \<Rightarrow> error + bool" where
  "up_to_date fs valid force reqFile venvPath =
     (case reqFile of
        None \<Rightarrow> Inr False
      | Some r \<Rightarrow>
          if valid \<and> \<not> force \<and> truthy r then
            (case isVenvStale fs venvPath r of
               Inl e \<Rightarrow> Inl e
             | Inr stale \<Rightarrow> Inr (\<not> stale))
          else Inr False)"

text \<open>``Create venv if it doesn't exist''.\<close>

definition create_venv :: "env \<Rightarrow> string \<Rightarrow> string \<Rightarrow> string \<Rightarrow> world \<Rightarrow> world \<times> (error + unit)" where
  "create_venv host mgr venvPath projectPath w =
     (let w1 = emit (ChannelLine (''Creating venv at '' @ venvPath @ '' using '' @ mgr @ ''...'')) w
      in if mgr = ''uv'' then runCommand host ''uv'' [''venv'', venvPath] projectPath w1
         else runCommand host ''python3'' [''-m'', ''venv'', venvPath] projectPath w1)"

text \<open>``Install dependencies'' from a manifest, then ``Write hash''.\<close>

definition install_requirements ::
    "env \<Rightarrow> string \<Rightarrow> string \<Rightarrow> string \<Rightarrow> string \<Rightarrow> world \<Rightarrow> world \<times> (error + unit)" where
  "install_requirements host mgr venvPath projectPath reqFile w =
     (let w1 = emit (ChannelLine (''Installing dependencies from '' @ path_basename reqFile @ ''...'')) w;
          pip = (if process_platform = ''win32'' then path_join [venvPath, ''Scripts'', ''pip.exe'']
                 else path_join [venvPath, ''bin'', ''pip''])
      in case (if mgr = ''uv''
               then runCommand host ''uv''
                      [''pip'', ''install'', ''-r'', reqFile, ''--python'', getVenvPython venvPath]
                      projectPath w1
               else runCommand host pip [''install'', ''-r'', reqFile] projectPath w1) of
           (w2, Inl e) \<Rightarrow> (w2, Inl e)
         | (w2, Inr u) \<Rightarrow>
             (case hashFile (w_fs w2) reqFile of
                Inl e \<Rightarrow> (w2, Inl e)
              | Inr hash \<Rightarrow>
                  (case writeHash (w_fs w2) venvPath hash of
                     Inl e \<Rightarrow> (w2, Inl e)
                   | Inr fs' \<Rightarrow>
                       (emit (ChannelLine (''Saved requirements hash: '' @ hash))
                          (emit (WriteFile (path_join [venvPath, HASH_FILENAME]) (hash @ [CHR 0x0A]))
                             (w2\<lparr>w_fs := fs'\<rparr>)),
                        Inr ()))))"

text \<open>\<open>options?.requirementsFile ?? findRequirementsFile(projectPath)\<close> and
  \<open>options?.force ?? false\<close>.\<close>

definition resolved_manifest :: "options option \<Rightarrow> fsys \<Rightarrow> string \<Rightarrow> string option" where
  "resolved_manifest opts fs projectPath =
     (case (case opts of None \<Rightarrow> None | Some opt \<Rightarrow> opt_requirementsFile opt) of
        Some r \<Rightarrow> Some r
      | None \<Rightarrow> findRequirementsFile fs projectPath)"

definition requested_force :: "options option \<Rightarrow> bool" where
  "requested_force opts =
     (case (case opts of None \<Rightarrow> None | Some opt \<Rightarrow> opt_force opt) of
        Some f \<Rightarrow> f
      | None \<Rightarrow> False)"

text \<open>``Install dependencies'': from the manifest when there is one, else \<open>uv sync\<close> for
  a uv project with a \<open>pyproject.toml\<close>, else nothing.\<close>

definition install_step ::
    "env \<Rightarrow> string \<Rightarrow> string \<Rightarrow> string \<Rightarrow> string option \<Rightarrow> world \<Rightarrow> world \<times> (error + unit)" where
  "install_step host mgr venvPath projectPath reqFile w =
     (let otherwise =
            (if mgr = ''uv'' \<and> existsSync (w_fs w) (path_join [projectPath, ''pyproject.toml''])
             then runCommand host ''uv'' [''sync''] projectPath
                    (emit (ChannelLine ''Running uv sync...'') w)
             else (w, Inr ()))
      in case reqFile of
           None \<Rightarrow> otherwise
         | Some r \<Rightarrow>
             if truthy r then install_requirements host mgr venvPath projectPath r w
             else otherwise)"

definition createOrUpdateVenv ::
    "env \<Rightarrow> world \<Rightarrow> string \<Rightarrow> options option \<Rightarrow> world \<times> (error + CreateVenvResult)" where
  "createOrUpdateVenv host w projectPath opts =
     (case resolvePackageManager host w projectPath of
        (w0, Inl e) \<Rightarrow> (w0, Inl e)
      | (w0, Inr mgr) \<Rightarrow>
          let venvPath = path_join [projectPath, ''.venv''];
              reqFile = resolved_manifest opts (w_fs w0) projectPath;
              force = requested_force opts;
              valid = isVenvValid (w_fs w0) venvPath
          in case up_to_date (w_fs w0) valid force reqFile venvPath of
               Inl e \<Rightarrow> (w0, Inl e)
             | Inr True \<Rightarrow>
                 (w0, Inr \<lparr>res_venvPath = venvPath, res_manager = mgr,
                           res_created = False, res_updated = False\<rparr>)
             | Inr False \<Rightarrow>
                 let w1 = emit ChannelShow (emit (ChannelCreate ''py-toolkit'') w0)
                 in case (if \<not> valid then create_venv host mgr venvPath projectPath w1
                          else (w1, Inr ())) of
                      (w2, Inl e) \<Rightarrow> (w2, Inl e)
                    | (w2, Inr u) \<Rightarrow>
                        (case install_step host mgr venvPath projectPath reqFile w2 of
                           (w3, Inl e) \<Rightarrow> (w3, Inl e)
                         | (w3, Inr u') \<Rightarrow>
                             (emit (ChannelLine ''Done.'') w3,
                              Inr \<lparr>res_venvPath = venvPath, res_manager = mgr,
                                    res_created = \<not> valid, res_updated = valid\<rparr>)))"

section \<open>Reading a trace\<close>

text \<open>The error a command's outcome raises in \<open>runCommand\<close>, if any.\<close>

definition outcome_error :: "outcome \<Rightarrow> error option" where
  "outcome_error out =
     (case out of
        Exited code \<Rightarrow> if code = Some 0 then None else Some (CommandExited code)
      | SpawnFailed msg \<Rightarrow> Some (SpawnError msg))"

text \<open>The files the code wrote, and the commands it ran that failed, in order.\<close>

fun written_files :: "event list \<Rightarrow> (string \<times> string) list" where
  "written_files [] = []"
| "written_files (WriteFile p c # es) = (p, c) # written_files es"
| "written_files (e # es) = written_files es"

fun failed_commands :: "event list \<Rightarrow> error list" where
  "failed_commands [] = []"
| "failed_commands (Spawn c a d out # es) =
     (case outcome_error out of None \<Rightarrow> [] | Some e \<Rightarrow> [e]) @ failed_commands es"
| "failed_commands (e # es) = failed_commands es"

fun run_commands :: "event list \<Rightarrow> (string \<times> string list) list" where
  "run_commands [] = []"
| "run_commands (Spawn c a d out # es) = (c, a) # run_commands es"
| "run_commands (e # es) = run_commands es"

fun probes :: "event list \<Rightarrow> (string \<times> string list) list" where
  "probes [] = []"
| "probes (Probe c a # es) = (c, a) # probes es"
| "probes (e # es) = probes es"

text \<open>Every write in the trace stands directly after a command that ran \<open>install\<close> and
  closed with exit code 0, and writes the file \<open>hashPath\<close>.\<close>

fun writes_follow_install :: "string \<Rightarrow> event list \<Rightarrow> bool" where
  "writes_follow_install hashPath [] = True"
| "writes_follow_install hashPath (Spawn c a d out # WriteFile p x # es) =
     (out = Exited (Some 0) \<and> ''install'' \<in> set a \<and> p = hashPath
        \<and> writes_follow_install hashPath es)"
| "writes_follow_install hashPath (WriteFile p x # es) = False"
| "writes_follow_install hashPath (e # es) = writes_follow_install hashPath es"

text \<open>What the events of a trace do to the file system: a command does what the host
  says it does, a write is a write, everything else leaves the file system alone.\<close>

fun replay :: "env \<Rightarrow> event list \<Rightarrow> fsys \<Rightarrow> fsys" where
  "replay host [] fs = fs"
| "replay host (Spawn c a d out # es) fs = replay host es (fst (exec_cmd host c a d fs))"
| "replay host (WriteFile p x # es) fs =
     replay host es (case writeFileSync fs p x of Inl e \<Rightarrow> fs | Inr fs' \<Rightarrow> fs')"
| "replay host (e # es) fs = replay host es fs"

text \<open>The events a run added to the trace.\<close>

definition new_events :: "world \<Rightarrow> world \<Rightarrow> event list" where
  "new_events w w' = drop (length (w_trace w)) (w_trace w')"

lemma le_bytes_length: "length (le_bytes k v) = k"
  by (induction k arbitrary: v) auto

lemma le_bytes_bound: "b \<in> set (le_bytes k v) \<Longrightarrow> b < 256"
  by (induction k arbitrary: v) auto

lemma md5_bytes_length: "length (md5_bytes bs) = 16"
  by (simp add: md5_bytes_def le_bytes_length split: prod.splits)

lemma md5_bytes_bound: "b \<in> set (md5_bytes bs) \<Longrightarrow> b < 256"
  by (auto simp: md5_bytes_def split: prod.splits dest: le_bytes_bound)

lemma hex_digit_in: "n < 16 \<Longrightarrow> hex_digit n \<in> set hex_chars"
proof -
  assume "n < 16"
  then have "n < length hex_chars" by (simp add: hex_chars_def)
  then show ?thesis unfolding hex_digit_def by (rule nth_mem)
qed

lemma hex_byte_in: "b < 256 \<Longrightarrow> x \<in> set (hex_byte b) \<Longrightarrow> x \<in> set hex_chars"
proof -
  assume b: "b < 256" and x: "x \<in> set (hex_byte b)"
  from b have "b div 16 < 16" "b mod 16 < 16" by auto
  then have "hex_digit (b div 16) \<in> set hex_chars" "hex_digit (b mod 16) \<in> set hex_chars"
    by (simp_all add: hex_digit_in)
  with x show ?thesis by (auto simp: hex_byte_def)
qed

lemma length_concat_hex: "length (concat (map hex_byte xs)) = 2 * length xs"
  by (induction xs) (auto simp: hex_byte_def)

lemma md5_hex_length: "length (md5_hex c) = 32"
  by (simp add: md5_hex_def length_concat_hex md5_bytes_length)

lemma md5_hex_chars: "x \<in> set (md5_hex c) \<Longrightarrow> x \<in> set hex_chars"
proof -
  assume "x \<in> set (md5_hex c)"
  then obtain b where b: "b \<in> set (md5_bytes (map of_char c))" and x: "x \<in> set (hex_byte b)"
    unfolding md5_hex_def by auto
  from b have "b < 256" by (rule md5_bytes_bound)
  then show ?thesis using x by (rule hex_byte_in)
qed

lemma strip_leading_stop:
  "find (\<lambda>e. e \<noteq> [] \<and> prefix e s) ws = None \<Longrightarrow> strip_leading ws s = s"
  by (subst strip_leading.simps) simp

lemma strip_leading_step:
  "find (\<lambda>e. e \<noteq> [] \<and> prefix e s) ws = Some e
     \<Longrightarrow> strip_leading ws s = strip_leading ws (drop (length e) s)"
  by (subst strip_leading.simps) simp

lemma hex_chars_range: "c \<in> set hex_chars \<Longrightarrow> 48 \<le> (of_char c :: nat) \<and> (of_char c :: nat) \<le> 102"
  by (auto simp: hex_chars_def)

lemma js_whitespace_first:
  "e \<in> set js_whitespace
     \<Longrightarrow> e \<noteq> [] \<and> ((of_char (hd e) :: nat) \<le> 32 \<or> 194 \<le> (of_char (hd e) :: nat))"
  by (auto simp: js_whitespace_def)

lemma js_whitespace_last:
  "e \<in> set js_whitespace
     \<Longrightarrow> (of_char (last e) :: nat) \<le> 32 \<or> 128 \<le> (of_char (last e) :: nat)"
  by (auto simp: js_whitespace_def)

lemma find_other_first:
  "\<forall>e \<in> set ws. e \<noteq> [] \<longrightarrow> hd e \<noteq> c
     \<Longrightarrow> find (\<lambda>e. e \<noteq> [] \<and> prefix e (c # cs)) ws = None"
proof -
  assume h: "\<forall>e \<in> set ws. e \<noteq> [] \<longrightarrow> hd e \<noteq> c"
  have "\<not> (e \<noteq> [] \<and> prefix e (c # cs))" if "e \<in> set ws" for e
    using h that by (cases e) auto
  then show ?thesis by (simp add: find_None_iff)
qed

lemma hex_starts_no_whitespace:
  assumes "c \<in> set hex_chars"
  shows "find (\<lambda>e. e \<noteq> [] \<and> prefix e (c # cs)) js_whitespace = None"
proof (rule find_other_first, intro ballI impI)
  fix e assume "e \<in> set js_whitespace"
  from js_whitespace_first [OF this] hex_chars_range [OF assms]
  show "hd e \<noteq> c" by auto
qed

lemma hex_ends_no_whitespace:
  assumes "c \<in> set hex_chars"
  shows "find (\<lambda>e. e \<noteq> [] \<and> prefix e (c # cs)) (map rev js_whitespace) = None"
proof (rule find_other_first, intro ballI impI)
  fix e assume "e \<in> set (map rev js_whitespace)"
  then obtain d where d: "d \<in> set js_whitespace" and e: "e = rev d" by auto
  from js_whitespace_first [OF d] have "d \<noteq> []" by simp
  then have "hd e = last d" by (simp add: e hd_rev)
  with js_whitespace_last [OF d] hex_chars_range [OF assms]
  show "hd e \<noteq> c" by auto
qed

lemma line_feed_is_whitespace:
  "find (\<lambda>e. e \<noteq> [] \<and> prefix e (CHR 0x0A # cs)) (map rev js_whitespace) = Some [CHR 0x0A]"
  by (simp add: js_whitespace_def)

lemma strip_leading_Nil: "strip_leading ws [] = []"
  by (rule strip_leading_stop) (simp add: find_None_iff)

lemma trim_line: "set h \<subseteq> set hex_chars \<Longrightarrow> trim (h @ [CHR 0x0A]) = h"
proof (cases h)
  case Nil
  have "strip_leading js_whitespace [CHR 0x0A] = strip_leading js_whitespace []"
    by (subst strip_leading.simps) (simp add: js_whitespace_def)
  then show ?thesis using Nil by (simp add: trim_def strip_leading_Nil)
next
  case (Cons a as)
  assume hx: "set h \<subseteq> set hex_chars"
  with Cons have a: "a \<in> set hex_chars" by simp
  have 1: "strip_leading js_whitespace (h @ [CHR 0x0A]) = h @ [CHR 0x0A]"
    unfolding Cons append_Cons by (rule strip_leading_stop) (rule hex_starts_no_whitespace [OF a])
  obtain b bs where r: "rev h = b # bs" using Cons by (cases "rev h") auto
  then have "b \<in> set (rev h)" by simp
  with hx have b: "b \<in> set hex_chars" by auto
  have "strip_leading (map rev js_whitespace) (CHR 0x0A # rev h)
          = strip_leading (map rev js_whitespace) (rev h)"
    using strip_leading_step [OF line_feed_is_whitespace, of "rev h"] by simp
  also have "\<dots> = rev h"
    unfolding r by (rule strip_leading_stop) (rule hex_ends_no_whitespace [OF b])
  finally show ?thesis by (simp add: trim_def 1)
qed

lemma trim_md5_line: "trim (md5_hex c @ [CHR 0x0A]) = md5_hex c"
  by (rule trim_line) (blast dest: md5_hex_chars)

text \<open>What \<open>trim\<close> removes besides ASCII white space: a no-break space before the line
  feed, and a byte-order mark in front.\<close>

lemma trim_no_break_space:
  "trim (''0123456789abcdef0123456789abcdef'' @ [CHR 0xC2, CHR 0xA0, CHR 0x0A])
     = ''0123456789abcdef0123456789abcdef''"
  by (simp add: trim_def js_whitespace_def strip_leading.simps)

lemma map_of_upd_entry: "map_of (upd_entry k v es) k' = (if k' = k then Some v else map_of es k')"
  by (induction es) auto

lemma write_node_lookup: "write_node n p c = Inr n' \<Longrightarrow> lookup_node n' p = Inr (File c)"
proof (induction n p c arbitrary: n' rule: write_node.induct)
  case (4 es s ss c)
  show ?case
  proof (cases "map_of es s")
    case None
    with "4.prems" show ?thesis
      by (auto simp: map_of_upd_entry split: if_splits)
  next
    case (Some ch)
    with "4.prems" obtain ch' where w: "write_node ch ss c = Inr ch'" and n': "n' = Dir (upd_entry s ch' es)"
      by (auto split: sum.splits)
    from "4.IH" [OF Some w] show ?thesis
      by (simp add: n' map_of_upd_entry)
  qed
qed auto

lemma write_node_frame:
  "write_node n p c = Inr n' \<Longrightarrow> q \<noteq> p \<Longrightarrow> lookup_node n q = Inr (File x)
     \<Longrightarrow> lookup_node n' q = Inr (File x)"
proof (induction n p c arbitrary: n' q rule: write_node.induct)
  case (1 old c)
  then show ?case by (cases q) auto
next
  case (4 es s ss c)
  from "4.prems"(3) obtain t ts where q: "q = t # ts" by (cases q) auto
  show ?case
  proof (cases "t = s")
    case False
    with "4.prems" q show ?thesis
      by (auto simp: map_of_upd_entry split: option.splits sum.splits if_splits)
  next
    case True
    with "4.prems"(3) q obtain ch where ch: "map_of es s = Some ch" and l: "lookup_node ch ts = Inr (File x)"
      by (auto split: option.splits)
    with "4.prems"(1) obtain ch' where w: "write_node ch ss c = Inr ch'" and n': "n' = Dir (upd_entry s ch' es)"
      by (auto split: sum.splits)
    from "4.prems"(2) q True have "ts \<noteq> ss" by simp
    from "4.IH" [OF ch w this l] show ?thesis
      by (simp add: n' q True map_of_upd_entry)
  qed
qed auto

lemma lookup_node_append:
  "lookup_node n (xs @ [k]) =
     (case lookup_node n xs of
        Inl e \<Rightarrow> Inl e
      | Inr (File c) \<Rightarrow> Inl ENOTDIR
      | Inr (Dir es) \<Rightarrow> (case map_of es k of None \<Rightarrow> Inl ENOENT | Some ch \<Rightarrow> Inr ch))"
proof (induction n xs rule: lookup_node.induct)
  case (1 n)
  then show ?case by (cases n) (auto split: option.splits)
next
  case (2 c s ss)
  then show ?case by simp
next
  case (3 es s ss)
  then show ?case by (cases "map_of es s") auto
qed

text \<open>A write keeps every entry, a directory a directory and a file a file.\<close>

lemma write_node_kind:
  "write_node n p c = Inr n' \<Longrightarrow> lookup_node n q = Inr x \<Longrightarrow>
     \<exists>x'. lookup_node n' q = Inr x' \<and>
          (case x of File y \<Rightarrow> (\<exists>y'. x' = File y') | Dir es \<Rightarrow> (\<exists>es'. x' = Dir es'))"
proof (induction n p c arbitrary: n' q x rule: write_node.induct)
  case (1 old c)
  then show ?case by (cases q) auto
next
  case (2 es c)
  then show ?case by simp
next
  case (3 old s ss c)
  then show ?case by simp
next
  case (4 es s ss c)
  show ?case
  proof (cases q)
    case Nil
    with "4.prems" show ?thesis by (auto split: option.splits sum.splits if_splits)
  next
    case (Cons t ts)
    show ?thesis
    proof (cases "t = s")
      case False
      with "4.prems" Cons have "lookup_node n' q = Inr x"
        by (auto simp: map_of_upd_entry split: option.splits sum.splits if_splits)
      then show ?thesis by (cases x) auto
    next
      case True
      with "4.prems"(2) Cons obtain ch where ch: "map_of es s = Some ch"
        and l: "lookup_node ch ts = Inr x"
        by (auto split: option.splits)
      with "4.prems"(1) obtain ch' where w: "write_node ch ss c = Inr ch'"
        and n': "n' = Dir (upd_entry s ch' es)"
        by (auto split: sum.splits)
      from "4.IH" [OF ch w l] show ?thesis
        by (simp add: n' Cons True map_of_upd_entry)
    qed
  qed
qed

lemma write_node_keeps_dir:
  assumes "write_node n p c = Inr n'" and "lookup_node n q = Inr (Dir es)"
  shows "\<exists>es'. lookup_node n' q = Inr (Dir es')"
  using write_node_kind [OF assms] by auto

lemma walk_append:
  "walk root at (xs @ ys) =
     (case walk root at xs of Inl e \<Rightarrow> Inl e | Inr at' \<Rightarrow> walk root at' ys)"
  by (induction xs arbitrary: at) (auto split: sum.splits node.splits option.splits)

text \<open>A walk that succeeds succeeds after a write, and reaches the same place.\<close>

lemma walk_write:
  assumes w: "write_node root p c = Inr root'"
  shows "walk root at segs = Inr r \<Longrightarrow> walk root' at segs = Inr r"
proof (induction segs arbitrary: at)
  case Nil
  then show ?case by simp
next
  case (Cons s ss)
  from Cons.prems obtain es where d: "lookup_node root at = Inr (Dir es)"
    by (auto split: sum.splits node.splits)
  from write_node_keeps_dir [OF w d] obtain es' where d': "lookup_node root' at = Inr (Dir es')"
    by blast
  show ?case
  proof (cases "s = [] \<or> s = ''.'' \<or> s = ''..''")
    case True
    with Cons.prems d d' Cons.IH show ?thesis by (auto split: if_splits)
  next
    case False
    with Cons.prems d obtain ch where ch: "map_of es s = Some ch"
      and r: "walk root (at @ [s]) ss = Inr r"
      by (auto split: option.splits)
    from d ch have "lookup_node root (at @ [s]) = Inr ch"
      by (simp add: lookup_node_append)
    from write_node_kind [OF w this] obtain ch' where "lookup_node root' (at @ [s]) = Inr ch'"
      by blast
    with d' have "map_of es' s = Some ch'"
      by (auto simp: lookup_node_append split: option.splits)
    with False d' Cons.IH [OF r] show ?thesis by simp
  qed
qed

lemma split_path_not_Nil: "split_path p \<noteq> []"
  by (induction p) (auto split: list.splits)

text \<open>What a successful write is: the directory the path leads to, the name of the file
  in it, and the tree with the file written there.\<close>

lemma writeFileSync_Inr:
  assumes "writeFileSync fs p c = Inr fs'"
  obtains dir t where
    "walk (tree fs) (walk_start fs p) (butlast (split_path p)) = Inr dir"
    "write_node (tree fs) (dir @ [last (split_path p)]) c = Inr t"
    "fs' = fs\<lparr>tree := t\<rparr>" "p \<noteq> []"
    "last (split_path p) \<noteq> []" "last (split_path p) \<noteq> ''.''" "last (split_path p) \<noteq> ''..''"
  using assms
  by (auto simp: writeFileSync_def Let_def split: if_splits sum.splits)

lemma walk_start_write: "walk_start (fs\<lparr>tree := t\<rparr>) p = walk_start fs p"
  by (simp add: walk_start_def)

lemma writeFileSync_cwd: "writeFileSync fs p c = Inr fs' \<Longrightarrow> cwd fs' = cwd fs"
  by (erule writeFileSync_Inr) simp

lemma writeFileSync_place:
  assumes "writeFileSync fs p c = Inr fs'"
  shows "\<exists>at. real_path fs' p = Inr at \<and> lookup_node (tree fs') at = Inr (File c)"
proof -
  from assms obtain dir t where
    d: "walk (tree fs) (walk_start fs p) (butlast (split_path p)) = Inr dir"
    and w: "write_node (tree fs) (dir @ [last (split_path p)]) c = Inr t"
    and fs': "fs' = fs\<lparr>tree := t\<rparr>" and p: "p \<noteq> []"
    and n: "last (split_path p) \<noteq> []" "last (split_path p) \<noteq> ''.''" "last (split_path p) \<noteq> ''..''"
    by (rule writeFileSync_Inr)
  let ?name = "last (split_path p)"
  have sp: "split_path p = butlast (split_path p) @ [?name]"
    using split_path_not_Nil [of p] by simp
  from write_node_lookup [OF w] have l: "lookup_node t (dir @ [?name]) = Inr (File c)" .
  then obtain es where "lookup_node t dir = Inr (Dir es)" "map_of es ?name = Some (File c)"
    by (auto simp: lookup_node_append split: sum.splits node.splits option.splits)
  with n have "walk t dir [?name] = Inr (dir @ [?name])" by simp
  with walk_write [OF w d]
  have "walk t (walk_start fs p) (butlast (split_path p) @ [?name]) = Inr (dir @ [?name])"
    by (simp add: walk_append)
  with sp have "walk t (walk_start fs p) (split_path p) = Inr (dir @ [?name])" by simp
  with p l show ?thesis by (simp add: real_path_def fs' walk_start_write)
qed

lemma writeFileSync_read: "writeFileSync fs p c = Inr fs' \<Longrightarrow> readFileSync fs' p = Inr c"
  using writeFileSync_place [of fs p c fs'] by (auto simp: readFileSync_def node_at_def)

lemma writeFileSync_exists: "writeFileSync fs p c = Inr fs' \<Longrightarrow> existsSync fs' p"
  using writeFileSync_place [of fs p c fs'] by (auto simp: existsSync_def node_at_def)

lemma readFileSync_Inr: "readFileSync fs q = Inr x \<longleftrightarrow> node_at fs q = Inr (File x)"
  by (auto simp: readFileSync_def split: sum.splits node.splits)

text \<open>A write leaves every other file as it reads: a path that names another place than
  the written path does.\<close>

lemma writeFileSync_frame:
  assumes wr: "writeFileSync fs p c = Inr fs'"
    and ne: "real_path fs q \<noteq> real_path fs p"
    and rd: "readFileSync fs q = Inr x"
  shows "readFileSync fs' q = Inr x"
proof -
  from wr obtain dir t where
    d: "walk (tree fs) (walk_start fs p) (butlast (split_path p)) = Inr dir"
    and w: "write_node (tree fs) (dir @ [last (split_path p)]) c = Inr t"
    and fs': "fs' = fs\<lparr>tree := t\<rparr>" and p: "p \<noteq> []"
    and n: "last (split_path p) \<noteq> []" "last (split_path p) \<noteq> ''.''" "last (split_path p) \<noteq> ''..''"
    by (rule writeFileSync_Inr)
  let ?name = "last (split_path p)"
  have sp: "split_path p = butlast (split_path p) @ [?name]"
    using split_path_not_Nil [of p] by simp
  from rd obtain at where q: "real_path fs q = Inr at"
    and l: "lookup_node (tree fs) at = Inr (File x)"
    by (auto simp: readFileSync_Inr node_at_def split: sum.splits)
  have other: "at \<noteq> dir @ [?name]"
  proof
    assume e: "at = dir @ [?name]"
    with l obtain es where "lookup_node (tree fs) dir = Inr (Dir es)" "map_of es ?name = Some (File x)"
      by (auto simp: lookup_node_append split: sum.splits node.splits option.splits)
    with n have "walk (tree fs) dir [?name] = Inr (dir @ [?name])" by simp
    with d have "walk (tree fs) (walk_start fs p) (butlast (split_path p) @ [?name]) = Inr (dir @ [?name])"
      by (simp add: walk_append)
    with sp have "walk (tree fs) (walk_start fs p) (split_path p) = Inr (dir @ [?name])" by simp
    with p have "real_path fs p = Inr at" by (simp add: real_path_def e)
    with q ne show False by simp
  qed
  from q have qn: "q \<noteq> []" and wq: "walk (tree fs) (walk_start fs q) (split_path q) = Inr at"
    by (auto simp: real_path_def split: if_splits)
  from walk_write [OF w wq] qn have "real_path fs' q = Inr at"
    by (simp add: real_path_def fs' walk_start_write)
  moreover from write_node_frame [OF w other l] have "lookup_node (tree fs') at = Inr (File x)"
    by (simp add: fs')
  ultimately show ?thesis by (simp add: readFileSync_Inr node_at_def)
qed

text \<open>After the write the other path still names another place than the written one.\<close>

lemma writeFileSync_other:
  assumes wr: "writeFileSync fs p c = Inr fs'"
    and ne: "real_path fs q \<noteq> real_path fs p"
    and rd: "readFileSync fs q = Inr x"
  shows "real_path fs' q \<noteq> real_path fs' p"
proof -
  from wr obtain dir t where
    d: "walk (tree fs) (walk_start fs p) (butlast (split_path p)) = Inr dir"
    and w: "write_node (tree fs) (dir @ [last (split_path p)]) c = Inr t"
    and fs': "fs' = fs\<lparr>tree := t\<rparr>" and p: "p \<noteq> []"
    and n: "last (split_path p) \<noteq> []" "last (split_path p) \<noteq> ''.''" "last (split_path p) \<noteq> ''..''"
    by (rule writeFileSync_Inr)
  let ?name = "last (split_path p)"
  have sp: "split_path p = butlast (split_path p) @ [?name]"
    using split_path_not_Nil [of p] by simp
  from rd obtain at where q: "real_path fs q = Inr at"
    and l: "lookup_node (tree fs) at = Inr (File x)"
    by (auto simp: readFileSync_Inr node_at_def split: sum.splits)
  from writeFileSync_frame [OF wr ne rd] obtain at' where q': "real_path fs' q = Inr at'"
    and l': "lookup_node (tree fs') at' = Inr (File x)"
    by (auto simp: readFileSync_Inr node_at_def split: sum.splits)
  from q have qn: "q \<noteq> []" and wq: "walk (tree fs) (walk_start fs q) (split_path q) = Inr at"
    by (auto simp: real_path_def split: if_splits)
  from walk_write [OF w wq] qn have qa: "real_path fs' q = Inr at"
    by (simp add: real_path_def fs' walk_start_write)
  show ?thesis
  proof
    assume e: "real_path fs' q = real_path fs' p"
    with qa p have "walk t (walk_start fs p) (butlast (split_path p) @ [?name]) = Inr at"
      using sp by (simp add: real_path_def fs' walk_start_write)
    with walk_write [OF w d] have "walk t dir [?name] = Inr at"
      by (simp add: walk_append)
    with n have at: "at = dir @ [?name]"
      by (auto split: sum.splits node.splits option.splits)
    with l obtain es where "lookup_node (tree fs) dir = Inr (Dir es)" "map_of es ?name = Some (File x)"
      by (auto simp: lookup_node_append split: sum.splits node.splits option.splits)
    with n have "walk (tree fs) dir [?name] = Inr (dir @ [?name])" by simp
    with d have "walk (tree fs) (walk_start fs p) (butlast (split_path p) @ [?name]) = Inr (dir @ [?name])"
      by (simp add: walk_append)
    with sp have "walk (tree fs) (walk_start fs p) (split_path p) = Inr (dir @ [?name])" by simp
    with p have "real_path fs p = Inr at" by (simp add: real_path_def at)
    with q ne show False by simp
  qed
qed

definition collision_a :: string where
  "collision_a = map char_of
    [(0xd1 :: nat), 0x31, 0xdd, 0x02, 0xc5, 0xe6, 0xee, 0xc4, 0x69, 0x3d, 0x9a, 0x06, 0x98, 0xaf, 0xf9, 0x5c,
     0x2f, 0xca, 0xb5, 0x87, 0x12, 0x46, 0x7e, 0xab, 0x40, 0x04, 0x58, 0x3e, 0xb8, 0xfb, 0x7f, 0x89,
     0x55, 0xad, 0x34, 0x06, 0x09, 0xf4, 0xb3, 0x02, 0x83, 0xe4, 0x88, 0x83, 0x25, 0x71, 0x41, 0x5a,
     0x08, 0x51, 0x25, 0xe8, 0xf7, 0xcd, 0xc9, 0x9f, 0xd9, 0x1d, 0xbd, 0xf2, 0x80, 0x37, 0x3c, 0x5b,
     0xd8, 0x82, 0x3e, 0x31, 0x56, 0x34, 0x8f, 0x5b, 0xae, 0x6d, 0xac, 0xd4, 0x36, 0xc9, 0x19, 0xc6,
     0xdd, 0x53, 0xe2, 0xb4, 0x87, 0xda, 0x03, 0xfd, 0x02, 0x39, 0x63, 0x06, 0xd2, 0x48, 0xcd, 0xa0,
     0xe9, 0x9f, 0x33, 0x42, 0x0f, 0x57, 0x7e, 0xe8, 0xce, 0x54, 0xb6, 0x70, 0x80, 0xa8, 0x0d, 0x1e,
     0xc6, 0x98, 0x21, 0xbc, 0xb6, 0xa8, 0x83, 0x93, 0x96, 0xf9, 0x65, 0x2b, 0x6f, 0xf7, 0x2a, 0x70]"

definition collision_b :: string where
  "collision_b = map char_of
    [(0xd1 :: nat), 0x31, 0xdd, 0x02, 0xc5, 0xe6, 0xee, 0xc4, 0x69, 0x3d, 0x9a, 0x06, 0x98, 0xaf, 0xf9, 0x5c,
     0x2f, 0xca, 0xb5, 0x07, 0x12, 0x46, 0x7e, 0xab, 0x40, 0x04, 0x58, 0x3e, 0xb8, 0xfb, 0x7f, 0x89,
     0x55, 0xad, 0x34, 0x06, 0x09, 0xf4, 0xb3, 0x02, 0x83, 0xe4, 0x88, 0x83, 0x25, 0xf1, 0x41, 0x5a,
     0x08, 0x51, 0x25, 0xe8, 0xf7, 0xcd, 0xc9, 0x9f, 0xd9, 0x1d, 0xbd, 0x72, 0x80, 0x37, 0x3c, 0x5b,
     0xd8, 0x82, 0x3e, 0x31, 0x56, 0x34, 0x8f, 0x5b, 0xae, 0x6d, 0xac, 0xd4, 0x36, 0xc9, 0x19, 0xc6,
     0xdd, 0x53, 0xe2, 0x34, 0x87, 0xda, 0x03, 0xfd, 0x02, 0x39, 0x63, 0x06, 0xd2, 0x48, 0xcd, 0xa0,
     0xe9, 0x9f, 0x33, 0x42, 0x0f, 0x57, 0x7e, 0xe8, 0xce, 0x54, 0xb6, 0x70, 0x80, 0x28, 0x0d, 0x1e,
     0xc6, 0x98, 0x21, 0xbc, 0xb6, 0xa8, 0x83, 0x93, 0x96, 0xf9, 0x65, 0xab, 0x6f, 0xf7, 0x2a, 0x70]"

definition project_fs :: "string \<Rightarrow> (string \<times> node) list \<Rightarrow> fsys" where
  "project_fs manifest venv_entries =
     \<lparr>tree = Dir [(''p'', Dir [(''requirements.txt'', File manifest), (''.venv'', Dir venv_entries)])],
      cwd = ''/''\<rparr>"

definition two_files :: "string \<Rightarrow> string \<Rightarrow> fsys" where
  "two_files a b = \<lparr>tree = Dir [(''a.txt'', File a), (''b.txt'', File b)], cwd = ''/''\<rparr>"

definition manifest_v2 :: string where
  "manifest_v2 = ''flask==2.0'' @ [CHR 0x0A]"

definition manifest_v3 :: string where
  "manifest_v3 = ''flask==3.0'' @ [CHR 0x0A]"

lemma replicate_numeral: "replicate (numeral k) x = x # replicate (pred_numeral k) x"
  by (simp add: numeral_eq_Suc)

lemma le_bytes_Suc': "n = Suc m \<Longrightarrow> le_bytes n v = (v mod 256) # le_bytes m (v div 256)"
  by simp

lemmas le_bytes_numeral = le_bytes_Suc' [OF numeral_eq_Suc]

lemmas md5_eval = md5_hex_def md5_bytes_def md5_pad_def md5_block_def md5_init_def md5_F_def
  md5_g_def md5_K_def md5_s_def rotl32_def add32_def not32_def hex_byte_def hex_digit_def
  hex_chars_def replicate_numeral le_bytes_numeral chop.simps md5_loop.simps

lemma md5_collision_a: "md5_hex collision_a = ''79054025255fb1a26e4bc422aef54eb4''"
  by (simp add: collision_a_def md5_eval)

lemma md5_collision_b: "md5_hex collision_b = ''79054025255fb1a26e4bc422aef54eb4''"
  by (simp add: collision_b_def md5_eval)

lemma collision_differs: "collision_a \<noteq> collision_b"
  by (simp add: collision_a_def collision_b_def)

lemma md5_manifest_v2: "md5_hex manifest_v2 = ''06c4d10d4a1758bae771ad4a1a3484a8''"
  by (simp add: manifest_v2_def md5_eval)

lemma md5_manifest_v3: "md5_hex manifest_v3 = ''2ae0c773ecb1620c2832a97ae15e7048''"
  by (simp add: manifest_v3_def md5_eval)

lemmas fs_eval = existsSync_def readFileSync_def readdirSync_def statSync_isDirectory_def
  node_at_def real_path_def walk_start_def writeFileSync_def norm_segs_def norm_step_def
  isAbsolute_def path_join_def path_normalize_def HASH_FILENAME_def project_fs_def two_files_def

lemma isVenvStale_no_hash:
  "\<not> existsSync fs (path_join [v, HASH_FILENAME]) \<Longrightarrow> isVenvStale fs v m = Inr True"
  by (simp add: isVenvStale_def readStoredHash_def)

lemma isVenvStale_compare:
  "readFileSync fs (path_join [v, HASH_FILENAME]) = Inr s \<Longrightarrow> readFileSync fs m = Inr content
     \<Longrightarrow> isVenvStale fs v m = Inr (trim s \<noteq> md5_hex content)"
  by (auto simp: isVenvStale_def readStoredHash_def hashFile_def existsSync_def readFileSync_def
      split: sum.splits)

lemma isVenvStale_after_write:
  assumes h: "hashFile fs m = Inr h"
    and w: "writeHash fs v h = Inr fs1"
    and ne: "real_path fs m \<noteq> real_path fs (path_join [v, HASH_FILENAME])"
  shows "readFileSync fs1 (path_join [v, HASH_FILENAME]) = Inr (h @ [CHR 0x0A])"
    and "isVenvStale fs1 v m = Inr False"
    and "writeFileSync fs1 m c' = Inr fs2 \<Longrightarrow> isVenvStale fs2 v m = Inr (md5_hex c' \<noteq> h)"
proof -
  let ?hp = "path_join [v, HASH_FILENAME]"
  from h obtain c where c: "readFileSync fs m = Inr c" and hc: "h = md5_hex c"
    by (auto simp: hashFile_def split: sum.splits)
  from w have w': "writeFileSync fs ?hp (h @ [CHR 0x0A]) = Inr fs1"
    by (simp add: writeHash_def)
  then show r1: "readFileSync fs1 ?hp = Inr (h @ [CHR 0x0A])"
    by (rule writeFileSync_read)
  from w' ne c have c1: "readFileSync fs1 m = Inr c"
    by (rule writeFileSync_frame)
  have t: "trim (h @ [CHR 0x0A]) = h"
    unfolding hc by (rule trim_md5_line)
  from isVenvStale_compare [OF r1 c1] show "isVenvStale fs1 v m = Inr False"
    by (simp add: hc trim_md5_line)
  assume w2: "writeFileSync fs1 m c' = Inr fs2"
  from w2 have c2: "readFileSync fs2 m = Inr c'" by (rule writeFileSync_read)
  from writeFileSync_other [OF w' ne c] have ne': "real_path fs1 ?hp \<noteq> real_path fs1 m"
    by simp
  from w2 ne' r1 have r2: "readFileSync fs2 ?hp = Inr (h @ [CHR 0x0A])"
    by (rule writeFileSync_frame)
  from isVenvStale_compare [OF r2 c2] show "isVenvStale fs2 v m = Inr (md5_hex c' \<noteq> h)"
    by (auto simp: t)
qed

text \<open>
  Claim C1 (as amended). \<open>isVenvStale\<close> returns true when no stored hash file exists under
  the venv. When the stored hash file and the manifest can both be read, it returns true
  iff the stored text, trimmed, differs from the MD5 hex digest of the manifest's bytes.
  When the manifest path names another file than the marker file of the venv, then after
  \<open>writeHash(venvPath, hashFile(manifestPath))\<close> the marker file holds the digest and a line
  feed and the check returns false, and after the manifest is rewritten with new content
  the check returns true iff the digest of the new content differs from the stored one.
\<close>

theorem isVenvStale_contract:
  "(\<not> existsSync fs (path_join [v, HASH_FILENAME]) \<longrightarrow> isVenvStale fs v m = Inr True) \<and>
   (readFileSync fs (path_join [v, HASH_FILENAME]) = Inr s \<and> readFileSync fs m = Inr content \<longrightarrow>
      isVenvStale fs v m = Inr (trim s \<noteq> md5_hex content)) \<and>
   (hashFile fs m = Inr h \<and> writeHash fs v h = Inr fs1 \<and>
    real_path fs m \<noteq> real_path fs (path_join [v, HASH_FILENAME]) \<longrightarrow>
      readFileSync fs1 (path_join [v, HASH_FILENAME]) = Inr (h @ [CHR 0x0A]) \<and>
      isVenvStale fs1 v m = Inr False \<and>
      (\<forall>c' fs2. writeFileSync fs1 m c' = Inr fs2 \<longrightarrow>
         isVenvStale fs2 v m = Inr (md5_hex c' \<noteq> h)))"
proof (intro conjI impI allI)
  assume "\<not> existsSync fs (path_join [v, HASH_FILENAME])"
  then show "isVenvStale fs v m = Inr True" by (rule isVenvStale_no_hash)
next
  assume "readFileSync fs (path_join [v, HASH_FILENAME]) = Inr s \<and> readFileSync fs m = Inr content"
  then show "isVenvStale fs v m = Inr (trim s \<noteq> md5_hex content)"
    by (simp add: isVenvStale_compare)
next
  assume a: "hashFile fs m = Inr h \<and> writeHash fs v h = Inr fs1 \<and>
    real_path fs m \<noteq> real_path fs (path_join [v, HASH_FILENAME])"
  then have h1: "hashFile fs m = Inr h" and h2: "writeHash fs v h = Inr fs1"
    and h3: "real_path fs m \<noteq> real_path fs (path_join [v, HASH_FILENAME])"
    by simp_all
  show "readFileSync fs1 (path_join [v, HASH_FILENAME]) = Inr (h @ [CHR 0x0A])"
    by (rule isVenvStale_after_write(1) [OF h1 h2 h3])
  show "isVenvStale fs1 v m = Inr False"
    by (rule isVenvStale_after_write(2) [OF h1 h2 h3])
  fix c' fs2
  assume "writeFileSync fs1 m c' = Inr fs2"
  then show "isVenvStale fs2 v m = Inr (md5_hex c' \<noteq> h)"
    by (rule isVenvStale_after_write(3) [OF h1 h2 h3])
qed

lemma project_fs_hash_path: "path_join [''/p/.venv'', HASH_FILENAME] = ''/p/.venv/.requirements-hash''"
  by (simp add: fs_eval)

lemma project_fs_no_hash: "\<not> existsSync (project_fs c []) ''/p/.venv/.requirements-hash''"
  by (simp add: fs_eval)

lemma project_fs_manifest: "readFileSync (project_fs c x) ''/p/requirements.txt'' = Inr c"
  by (simp add: fs_eval)

lemma project_fs_stored:
  "readFileSync (project_fs c [(''.requirements-hash'', File s)]) ''/p/.venv/.requirements-hash'' = Inr s"
  by (simp add: fs_eval)

lemma project_fs_writeHash:
  "writeHash (project_fs c []) ''/p/.venv'' h
     = Inr (project_fs c [(''.requirements-hash'', File (h @ [CHR 0x0A]))])"
  by (simp add: fs_eval writeHash_def)

lemma project_fs_edit:
  "writeFileSync (project_fs c x) ''/p/requirements.txt'' c' = Inr (project_fs c' x)"
  by (simp add: fs_eval)

lemma project_fs_paths_differ:
  "real_path (project_fs c x) ''/p/requirements.txt''
     \<noteq> real_path (project_fs c x) ''/p/.venv/.requirements-hash''"
  by (simp add: fs_eval split: option.splits)

lemma trim_stored_no_break_space:
  "trim (''06c4d10d4a1758bae771ad4a1a3484a8'' @ [CHR 0xC2, CHR 0xA0, CHR 0x0A])
     = ''06c4d10d4a1758bae771ad4a1a3484a8''"
  by (simp add: trim_def js_whitespace_def strip_leading.simps)

theorem isVenvStale_contract_witness:
  "isVenvStale (project_fs manifest_v2 []) ''/p/.venv'' ''/p/requirements.txt'' = Inr True \<and>
   isVenvStale
      (project_fs manifest_v2
         [(''.requirements-hash'',
           File (''06c4d10d4a1758bae771ad4a1a3484a8'' @ [CHR 0xC2, CHR 0xA0, CHR 0x0A]))])
      ''/p/.venv'' ''/p/requirements.txt'' = Inr False \<and>
   isVenvStale (project_fs manifest_v2 [(''.requirements-hash'', File (md5_hex manifest_v2 @ [CHR 0x0A]))])
      ''/p/.venv'' ''/p/requirements.txt'' = Inr False \<and>
   isVenvStale (project_fs manifest_v3 [(''.requirements-hash'', File (md5_hex manifest_v2 @ [CHR 0x0A]))])
      ''/p/.venv'' ''/p/requirements.txt'' = Inr True"
proof -
  let ?h = "md5_hex manifest_v2"
  let ?fs0 = "project_fs manifest_v2 []"
  let ?fs1 = "project_fs manifest_v2 [(''.requirements-hash'', File (?h @ [CHR 0x0A]))]"
  let ?fs2 = "project_fs manifest_v3 [(''.requirements-hash'', File (?h @ [CHR 0x0A]))]"
  have hf: "hashFile ?fs0 ''/p/requirements.txt'' = Inr ?h"
    by (simp add: hashFile_def project_fs_manifest)
  have ne: "md5_hex manifest_v3 \<noteq> ?h"
    by (simp add: md5_manifest_v2 md5_manifest_v3)
  note T = isVenvStale_contract [of ?fs0 "''/p/.venv''" "''/p/requirements.txt''"
      "?h @ [CHR 0x0A]" manifest_v2 ?h ?fs1]
  from T have 1: "isVenvStale ?fs0 ''/p/.venv'' ''/p/requirements.txt'' = Inr True"
    by (simp add: project_fs_hash_path project_fs_no_hash)
  have 0: "isVenvStale
      (project_fs manifest_v2
         [(''.requirements-hash'',
           File (''06c4d10d4a1758bae771ad4a1a3484a8'' @ [CHR 0xC2, CHR 0xA0, CHR 0x0A]))])
      ''/p/.venv'' ''/p/requirements.txt'' = Inr False"
    using isVenvStale_contract [where v = "''/p/.venv''" and m = "''/p/requirements.txt''"
        and s = "''06c4d10d4a1758bae771ad4a1a3484a8'' @ [CHR 0xC2, CHR 0xA0, CHR 0x0A]"
        and content = manifest_v2
        and fs = "project_fs manifest_v2
         [(''.requirements-hash'',
           File (''06c4d10d4a1758bae771ad4a1a3484a8'' @ [CHR 0xC2, CHR 0xA0, CHR 0x0A]))]",
        THEN conjunct2, THEN conjunct1]
    by (simp only: project_fs_hash_path project_fs_stored project_fs_manifest
        trim_stored_no_break_space md5_manifest_v2 simp_thms)
  from T hf have 2: "isVenvStale ?fs1 ''/p/.venv'' ''/p/requirements.txt'' = Inr False"
    by (simp add: project_fs_hash_path project_fs_writeHash project_fs_paths_differ)
  from T hf have "\<forall>c' fs2. writeFileSync ?fs1 ''/p/requirements.txt'' c' = Inr fs2 \<longrightarrow>
         isVenvStale fs2 ''/p/.venv'' ''/p/requirements.txt'' = Inr (md5_hex c' \<noteq> ?h)"
    by (simp add: project_fs_hash_path project_fs_writeHash project_fs_paths_differ)
  then have 3: "isVenvStale ?fs2 ''/p/.venv'' ''/p/requirements.txt'' = Inr True"
    using ne by (simp add: project_fs_edit)
  from 0 1 2 3 show ?thesis by simp
qed

text \<open>
  Claim C1 as stated fails where it says the check reports stale again once the
  manifest's content changes: the two messages of a known MD5 collision are different
  manifests with one digest, so the check still returns false after the change.
\<close>

theorem isVenvStale_collision_counterexample:
  "collision_a \<noteq> collision_b \<and>
   hashFile (project_fs collision_a []) ''/p/requirements.txt''
     = Inr ''79054025255fb1a26e4bc422aef54eb4'' \<and>
   writeHash (project_fs collision_a []) ''/p/.venv'' ''79054025255fb1a26e4bc422aef54eb4''
     = Inr (project_fs collision_a
         [(''.requirements-hash'', File (''79054025255fb1a26e4bc422aef54eb4'' @ [CHR 0x0A]))]) \<and>
   writeFileSync (project_fs collision_a
         [(''.requirements-hash'', File (''79054025255fb1a26e4bc422aef54eb4'' @ [CHR 0x0A]))])
       ''/p/requirements.txt'' collision_b
     = Inr (project_fs collision_b
         [(''.requirements-hash'', File (''79054025255fb1a26e4bc422aef54eb4'' @ [CHR 0x0A]))]) \<and>
   isVenvStale (project_fs collision_b
         [(''.requirements-hash'', File (''79054025255fb1a26e4bc422aef54eb4'' @ [CHR 0x0A]))])
       ''/p/.venv'' ''/p/requirements.txt'' = Inr False"
proof -
  let ?H = "''79054025255fb1a26e4bc422aef54eb4''"
  have t: "trim (?H @ [CHR 0x0A]) = ?H"
    using trim_md5_line [of collision_a] by (simp add: md5_collision_a)
  have "isVenvStale (project_fs collision_b [(''.requirements-hash'', File (?H @ [CHR 0x0A]))])
       ''/p/.venv'' ''/p/requirements.txt'' = Inr (trim (?H @ [CHR 0x0A]) \<noteq> md5_hex collision_b)"
    by (rule isVenvStale_compare) (simp_all only: project_fs_hash_path project_fs_stored project_fs_manifest)
  then have s: "isVenvStale (project_fs collision_b [(''.requirements-hash'', File (?H @ [CHR 0x0A]))])
       ''/p/.venv'' ''/p/requirements.txt'' = Inr False"
    by (simp only: t md5_collision_b simp_thms)
  have h: "hashFile (project_fs collision_a []) ''/p/requirements.txt'' = Inr ?H"
    by (simp add: hashFile_def project_fs_manifest md5_collision_a)
  from collision_differs h s show ?thesis
    by (simp only: project_fs_writeHash project_fs_edit simp_thms)
qed

text \<open>
  Claim C6 (as amended). \<open>hashFile\<close> is deterministic: the digest is the MD5 hex digest of
  the file's bytes, 32 characters out of \<open>0123456789abcdef\<close>, so two files with the same
  bytes have the same digest, and two files with different digests have different bytes.
\<close>

theorem hashFile_deterministic:
  "(readFileSync fs p = Inr c \<longrightarrow>
      hashFile fs p = Inr (md5_hex c) \<and> length (md5_hex c) = 32 \<and> set (md5_hex c) \<subseteq> set hex_chars) \<and>
   (readFileSync fs p = Inr c \<and> readFileSync fs' q = Inr c \<longrightarrow> hashFile fs p = hashFile fs' q) \<and>
   (hashFile fs p = Inr h \<and> hashFile fs' q = Inr h' \<and> h \<noteq> h' \<longrightarrow>
      readFileSync fs p \<noteq> readFileSync fs' q)"
  by (auto simp: hashFile_def md5_hex_length md5_hex_chars split: sum.splits)

theorem hashFile_deterministic_witness:
  "hashFile (two_files manifest_v2 manifest_v2) ''/a.txt''
     = hashFile (two_files manifest_v2 manifest_v2) ''/b.txt'' \<and>
   hashFile (two_files manifest_v2 manifest_v3) ''/a.txt'' = Inr ''06c4d10d4a1758bae771ad4a1a3484a8'' \<and>
   hashFile (two_files manifest_v2 manifest_v3) ''/b.txt'' = Inr ''2ae0c773ecb1620c2832a97ae15e7048'' \<and>
   readFileSync (two_files manifest_v2 manifest_v3) ''/a.txt''
     \<noteq> readFileSync (two_files manifest_v2 manifest_v3) ''/b.txt''"
proof -
  have ra: "readFileSync (two_files a b) ''/a.txt'' = Inr a" for a b
    by (simp add: fs_eval)
  have rb: "readFileSync (two_files a b) ''/b.txt'' = Inr b" for a b
    by (simp add: fs_eval)
  have 1: "hashFile (two_files manifest_v2 manifest_v2) ''/a.txt''
     = hashFile (two_files manifest_v2 manifest_v2) ''/b.txt''"
    by (rule hashFile_deterministic [of _ _ manifest_v2, THEN conjunct2, THEN conjunct1, THEN mp])
      (simp add: ra rb)
  have 2: "hashFile (two_files manifest_v2 manifest_v3) ''/a.txt'' = Inr (md5_hex manifest_v2)"
    by (rule hashFile_deterministic [THEN conjunct1, THEN mp, THEN conjunct1]) (simp add: ra)
  have 3: "hashFile (two_files manifest_v2 manifest_v3) ''/b.txt'' = Inr (md5_hex manifest_v3)"
    by (rule hashFile_deterministic [THEN conjunct1, THEN mp, THEN conjunct1]) (simp add: rb)
  have 4: "readFileSync (two_files manifest_v2 manifest_v3) ''/a.txt''
     \<noteq> readFileSync (two_files manifest_v2 manifest_v3) ''/b.txt''"
    by (rule hashFile_deterministic [where h = "md5_hex manifest_v2" and h' = "md5_hex manifest_v3",
          THEN conjunct2, THEN conjunct2, THEN mp])
      (simp add: 2 3 md5_manifest_v2 md5_manifest_v3)
  from 1 2 3 4 show ?thesis by (simp add: md5_manifest_v2 md5_manifest_v3)
qed

text \<open>
  Claim C6 as stated fails in its second half: two files whose contents differ can have
  the same digest.
\<close>

theorem hashFile_collision_counterexample:
  "readFileSync (two_files collision_a collision_b) ''/a.txt'' = Inr collision_a \<and>
   readFileSync (two_files collision_a collision_b) ''/b.txt'' = Inr collision_b \<and>
   collision_a \<noteq> collision_b \<and>
   hashFile (two_files collision_a collision_b) ''/a.txt''
     = hashFile (two_files collision_a collision_b) ''/b.txt''"
proof -
  have ra: "readFileSync (two_files collision_a collision_b) ''/a.txt'' = Inr collision_a"
    by (simp add: fs_eval)
  have rb: "readFileSync (two_files collision_a collision_b) ''/b.txt'' = Inr collision_b"
    by (simp add: fs_eval)
  show ?thesis
    by (simp add: ra rb hashFile_def collision_differs md5_collision_a md5_collision_b)
qed

text \<open>The decision order of the specification, on what the directory holds: whether the
  lockfile exists, the text of \<open>pyproject.toml\<close> if there is one, whether
  \<open>requirements.txt\<close> exists, and the preference list.\<close>

definition detect_order :: "bool \<Rightarrow> string option \<Rightarrow> bool \<Rightarrow> string list \<Rightarrow> string" where
  "detect_order hasLock pyproject hasRequirements prefs =
     (if hasLock then ''uv''
      else if (case pyproject of None \<Rightarrow> False
               | Some content \<Rightarrow> sublist ''[tool.uv]'' content) then ''uv''
      else if (case pyproject of None \<Rightarrow> False
               | Some content \<Rightarrow> sublist ''[project]'' content
                                  \<and> sublist ''dependencies = ['' content) then ''uv''
      else if hasRequirements then ''venv+pip''
      else (case prefs of [] \<Rightarrow> ''venv+pip'' | p # ps \<Rightarrow> p))"

definition manager_fs :: "(string \<times> node) list \<Rightarrow> fsys" where
  "manager_fs entries = \<lparr>tree = Dir [(''proj'', Dir entries)], cwd = ''/''\<rparr>"

definition black_pyproject :: string where
  "black_pyproject = ''[tool.black]'' @ [CHR 0x0A] @ ''line-length = 100'' @ [CHR 0x0A]"

lemma includes_str_sublist: "includes_str s t \<longleftrightarrow> sublist t s"
proof (induction s)
  case Nil
  then show ?case by auto
next
  case (Cons c cs)
  show ?case
    by (simp add: Cons sublist_Cons_right)
qed

text \<open>
  Claim C4 (as amended). In a project directory where \<open>pyproject.toml\<close>, if it exists and
  no lockfile does, can be read as a file, \<open>detectPackageManager\<close> decides in the order of
  the specification, first match wins: the lockfile, then \<open>[tool.uv]\<close> in the text of
  \<open>pyproject.toml\<close>, then \<open>[project]\<close> together with \<open>dependencies = [\<close> in that text, then
  \<open>requirements.txt\<close>, then the first preferred manager, \<open>venv+pip\<close> when the list is
  empty. Where \<open>pyproject.toml\<close> exists, no lockfile does and reading it fails, the error
  of the read is raised and nothing is returned.
\<close>

theorem detectPackageManager_order:
  "(existsSync fs (path_join [projectPath, ''uv.lock'']) \<or>
    (\<not> existsSync fs (path_join [projectPath, ''pyproject.toml'']) \<and> py = None) \<or>
    (readFileSync fs (path_join [projectPath, ''pyproject.toml'']) = Inr c \<and> py = Some c) \<longrightarrow>
      detectPackageManager cfg fs projectPath =
        Inr (detect_order (existsSync fs (path_join [projectPath, ''uv.lock''])) py
               (existsSync fs (path_join [projectPath, ''requirements.txt'']))
               (preferredManagers cfg))) \<and>
   (\<not> existsSync fs (path_join [projectPath, ''uv.lock'']) \<and>
    existsSync fs (path_join [projectPath, ''pyproject.toml'']) \<and>
    readFileSync fs (path_join [projectPath, ''pyproject.toml'']) = Inl e \<longrightarrow>
      detectPackageManager cfg fs projectPath = Inl e)"
proof -
  have ex: "readFileSync fs p = Inr x \<Longrightarrow> existsSync fs p" for p x
    by (auto simp: readFileSync_def existsSync_def split: sum.splits)
  show ?thesis
    by (auto simp: detectPackageManager_def detect_order_def Let_def includes_str_sublist
        dest: ex split: list.splits)
qed

theorem detectPackageManager_order_witness:
  "detectPackageManager default_config
     (manager_fs [(''pyproject.toml'', File black_pyproject), (''requirements.txt'', File ''flask'')])
     ''/proj'' = Inr ''venv+pip'' \<and>
   detectPackageManager default_config
     (manager_fs [(''uv.lock'', File []), (''requirements.txt'', File ''flask'')])
     ''/proj'' = Inr ''uv'' \<and>
   detectPackageManager default_config
     (manager_fs [(''pyproject.toml'', File (''[tool.uv]'' @ [CHR 0x0A])), (''requirements.txt'', File ''flask'')])
     ''/proj'' = Inr ''uv'' \<and>
   detectPackageManager default_config (manager_fs []) ''/proj'' = Inr ''uv'' \<and>
   detectPackageManager (default_config\<lparr>preferredManagers := []\<rparr>) (manager_fs []) ''/proj''
     = Inr ''venv+pip'' \<and>
   detectPackageManager default_config (manager_fs [(''pyproject.toml'', Dir [])]) ''/proj''
     = Inl (FsError EISDIR ''/proj/pyproject.toml'')"
proof -
  note ev = fs_eval manager_fs_def detect_order_def default_config_def black_pyproject_def
    includes_str_sublist [symmetric]
  have 1: "detectPackageManager default_config
     (manager_fs [(''pyproject.toml'', File black_pyproject), (''requirements.txt'', File ''flask'')])
     ''/proj'' = Inr ''venv+pip''"
    using detectPackageManager_order [where py = "Some black_pyproject" and c = black_pyproject
        and projectPath = "''/proj''" and cfg = default_config
        and fs = "manager_fs [(''pyproject.toml'', File black_pyproject), (''requirements.txt'', File ''flask'')]", THEN conjunct1]
    by (simp add: ev)
  have 2: "detectPackageManager default_config
     (manager_fs [(''uv.lock'', File []), (''requirements.txt'', File ''flask'')])
     ''/proj'' = Inr ''uv''"
    using detectPackageManager_order [where py = None
        and projectPath = "''/proj''" and cfg = default_config
        and fs = "manager_fs [(''uv.lock'', File []), (''requirements.txt'', File ''flask'')]", THEN conjunct1]
    by (simp add: ev)
  have 3: "detectPackageManager default_config
     (manager_fs [(''pyproject.toml'', File (''[tool.uv]'' @ [CHR 0x0A])), (''requirements.txt'', File ''flask'')])
     ''/proj'' = Inr ''uv''"
    using detectPackageManager_order [where py = "Some (''[tool.uv]'' @ [CHR 0x0A])"
        and c = "''[tool.uv]'' @ [CHR 0x0A]"
        and projectPath = "''/proj''" and cfg = default_config
        and fs = "manager_fs [(''pyproject.toml'', File (''[tool.uv]'' @ [CHR 0x0A])), (''requirements.txt'', File ''flask'')]", THEN conjunct1]
    by (simp add: ev)
  have 4: "detectPackageManager default_config (manager_fs []) ''/proj'' = Inr ''uv''"
    using detectPackageManager_order [where py = None
        and projectPath = "''/proj''" and cfg = default_config and fs = "manager_fs []", THEN conjunct1]
    by (simp add: ev)
  have 5: "detectPackageManager (default_config\<lparr>preferredManagers := []\<rparr>) (manager_fs []) ''/proj''
     = Inr ''venv+pip''"
    using detectPackageManager_order [where py = None
        and projectPath = "''/proj''" and cfg = "default_config\<lparr>preferredManagers := []\<rparr>"
        and fs = "manager_fs []", THEN conjunct1]
    by (simp add: ev)
  have 6: "detectPackageManager default_config (manager_fs [(''pyproject.toml'', Dir [])]) ''/proj''
     = Inl (FsError EISDIR ''/proj/pyproject.toml'')"
    using detectPackageManager_order [where e = "FsError EISDIR ''/proj/pyproject.toml''"
        and projectPath = "''/proj''" and cfg = default_config
        and fs = "manager_fs [(''pyproject.toml'', Dir [])]", THEN conjunct2]
    by (simp add: ev)
  from 1 2 3 4 5 6 show ?thesis by simp
qed

text \<open>
  Claim C4 as stated fails for a project directory whose \<open>pyproject.toml\<close> is a directory:
  with a \<open>requirements.txt\<close> beside it and no lockfile the claim gives \<open>venv+pip\<close>, and
  the code raises \<open>EISDIR\<close> from reading \<open>pyproject.toml\<close>.
\<close>

theorem detectPackageManager_unreadable_counterexample:
  "\<not> existsSync (manager_fs [(''pyproject.toml'', Dir []), (''requirements.txt'', File ''flask'')])
       ''/proj/uv.lock'' \<and>
   existsSync (manager_fs [(''pyproject.toml'', Dir []), (''requirements.txt'', File ''flask'')])
       ''/proj/requirements.txt'' \<and>
   detectPackageManager default_config
     (manager_fs [(''pyproject.toml'', Dir []), (''requirements.txt'', File ''flask'')]) ''/proj''
     = Inl (FsError EISDIR ''/proj/pyproject.toml'') \<and>
   detectPackageManager default_config
     (manager_fs [(''pyproject.toml'', Dir []), (''requirements.txt'', File ''flask'')]) ''/proj''
     \<noteq> Inr ''venv+pip''"
  by (simp add: detectPackageManager_def fs_eval manager_fs_def)

text \<open>A name is a proper path prefix of a relative path when the path continues with a
  separator after it.\<close>

definition proper_path_prefix :: "string \<Rightarrow> string \<Rightarrow> bool" where
  "proper_path_prefix sp rel = prefix (sp @ ''/'') rel"

lemma set_js_insert: "set (js_insert cmp x ys) = insert x (set ys)"
  by (induction ys) auto

lemma set_js_sort: "set (js_sort cmp xs) = set xs"
  unfolding js_sort_def by (induction xs) (auto simp: set_js_insert)

lemma sorted_js_insert_length:
  "sorted_wrt (\<lambda>a b. length b \<le> length a) ys
     \<Longrightarrow> sorted_wrt (\<lambda>a b. length b \<le> length a)
           (js_insert (\<lambda>a b. int (length b) - int (length a)) x ys)"
  by (induction ys) (auto simp: set_js_insert)

lemma sorted_js_sort_length:
  "sorted_wrt (\<lambda>a b. length b \<le> length a) (js_sort (\<lambda>a b. int (length b) - int (length a)) xs)"
  unfolding js_sort_def by (induction xs) (auto intro: sorted_js_insert_length)

lemma find_sorted_longest:
  assumes s: "sorted_wrt (\<lambda>a b. length b \<le> length a) xs"
    and f: "find P xs = Some x"
    and y: "y \<in> set xs" "P y"
  shows "length y \<le> length x"
  using s f y
proof (induction xs)
  case Nil
  then show ?case by simp
next
  case (Cons a as)
  show ?case
  proof (cases "P a")
    case True
    with Cons.prems have "x = a" by simp
    with Cons.prems show ?thesis by auto
  next
    case False
    with Cons.prems have "find P as = Some x" "y \<in> set as" by auto
    with Cons show ?thesis by simp
  qed
qed

lemma same_length_prefix:
  assumes "prefix (a @ ''/'') r" "prefix (b @ ''/'') r" "length a = length b"
  shows "a = b"
proof -
  from assms(1) obtain u where u: "r = a @ ''/'' @ u" by (auto simp: prefix_def)
  from assms(2) obtain v where v: "r = b @ ''/'' @ v" by (auto simp: prefix_def)
  from u v assms(3) show ?thesis by (metis append_eq_append_conv)
qed

text \<open>
  On a POSIX host \<open>getProjectForFile\<close> returns a candidate name that is a proper path
  prefix of the file's path relative to the workspace root and that is strictly longer
  than every other candidate that is one; it returns nothing exactly when no candidate is
  such a prefix.
\<close>

lemma getProjectForFile_posix_longest:
  "(case getProjectForFile Posix wd filePath workspaceRoot names of
      None \<Rightarrow> \<forall>sp \<in> set names. \<not> proper_path_prefix sp (posix_relative wd workspaceRoot filePath)
    | Some sp \<Rightarrow>
        sp \<in> set names \<and> proper_path_prefix sp (posix_relative wd workspaceRoot filePath) \<and>
        (\<forall>sp' \<in> set names.
           proper_path_prefix sp' (posix_relative wd workspaceRoot filePath) \<longrightarrow>
           sp' = sp \<or> length sp' < length sp))"
proof -
  let ?rel = "posix_relative wd workspaceRoot filePath"
  let ?P = "\<lambda>sp. startsWith ?rel (sp @ path_sep Posix) \<or> startsWith ?rel (sp @ ''/'')"
  let ?xs = "js_sort (\<lambda>a b. int (length b) - int (length a)) names"
  have P: "?P sp \<longleftrightarrow> proper_path_prefix sp ?rel" for sp
    by (simp add: startsWith_def path_sep_def proper_path_prefix_def)
  have g: "getProjectForFile Posix wd filePath workspaceRoot names = find ?P ?xs"
    by (simp add: getProjectForFile_def path_relative_def Let_def)
  show ?thesis
  proof (cases "find ?P ?xs")
    case None
    then have "\<forall>sp \<in> set ?xs. \<not> ?P sp" by (simp add: find_None_iff)
    then show ?thesis using None by (simp add: g P set_js_sort)
  next
    case (Some sp)
    then have m: "sp \<in> set ?xs" and p: "?P sp"
      by (auto simp: find_Some_iff)
    have "sp' = sp \<or> length sp' < length sp"
      if "sp' \<in> set names" "proper_path_prefix sp' ?rel" for sp'
    proof -
      from that have "sp' \<in> set ?xs" "?P sp'" by (simp_all add: set_js_sort P)
      with find_sorted_longest [OF sorted_js_sort_length Some] have le: "length sp' \<le> length sp"
        by blast
      show ?thesis
      proof (cases "length sp' = length sp")
        case True
        with that(2) p have "sp' = sp"
          by (auto simp: P proper_path_prefix_def intro: same_length_prefix)
        then show ?thesis ..
      next
        case False
        with le show ?thesis by simp
      qed
    qed
    with m p show ?thesis using Some by (simp add: g P set_js_sort)
  qed
qed

text \<open>A workspace on drive \<open>C:\<close> of a Windows host, and a file of the project
  \<open>mcp/weather\<close> in it.\<close>

definition win32_workspace :: string where
  "win32_workspace = ''C:'' @ [backslash] @ ''ws''"

definition win32_nested_file :: string where
  "win32_nested_file =
     win32_workspace @ [backslash] @ ''mcp'' @ [backslash] @ ''weather'' @ [backslash] @ ''main.py''"

lemma win32_nested_relative:
  "win32_relative win32_workspace win32_workspace win32_nested_file
     = ''mcp'' @ [backslash] @ ''weather'' @ [backslash] @ ''main.py''"
  by (simp add: win32_relative_def win32_resolve_segs_def win32_workspace_def win32_nested_file_def
      drive_of_def is_letter_def to_lower_def backslash_def norm_segs_def norm_step_def Let_def)

text \<open>
  Claim C7 fails on the code on a Windows host. The names of the subprojects are joined
  with \<open>/\<close> by discovery, and \<open>path.relative\<close> joins with back-slashes there, so a nested
  name is no prefix of the relative path, with either separator after it: for the file
  \<open>main.py\<close> of the project \<open>mcp/weather\<close> the ancestor \<open>mcp\<close> is returned, and nothing
  when \<open>mcp\<close> is not a candidate. On a POSIX host the same call returns \<open>mcp/weather\<close>.
\<close>

theorem getProjectForFile_win32_nested:
  "getProjectForFile Win32 win32_workspace win32_nested_file win32_workspace [''mcp'', ''mcp/weather'']
     = Some ''mcp'' \<and>
   getProjectForFile Win32 win32_workspace win32_nested_file win32_workspace [''mcp/weather'']
     = None \<and>
   getProjectForFile Posix ''/'' ''/ws/mcp/weather/main.py'' ''/ws'' [''mcp'', ''mcp/weather'']
     = Some ''mcp/weather''"
proof -
  have p: "posix_relative ''/'' ''/ws'' ''/ws/mcp/weather/main.py'' = ''mcp/weather/main.py''"
    by (simp add: posix_relative_def resolve_segs_def norm_segs_def norm_step_def isAbsolute_def)
  show ?thesis
    by (simp add: getProjectForFile_def path_relative_def win32_nested_relative p path_sep_def
        js_sort_def startsWith_def backslash_def)
qed

lemma dirname_end_bounds:
  "dirname_end p i m = Some e \<Longrightarrow> 1 \<le> e \<and> e \<le> i \<and> (m \<longrightarrow> e < i)"
proof (induction p i m rule: dirname_end.induct)
  case (1 p matchedSlash)
  then show ?case by simp
next
  case (2 p i matchedSlash)
  then show ?case
    by (auto split: if_splits)
qed

lemma path_dirname_shorter:
  assumes "prefix ''/'' p" and "p \<noteq> ''/''"
  shows "length (path_dirname p) < length p"
proof -
  from assms obtain q where p: "p = CHR ''/'' # q" and q: "q \<noteq> []"
    by (cases p) (auto simp: prefix_def)
  show ?thesis
  proof (cases "dirname_end p (length p - 1) True")
    case None
    then show ?thesis using p q by (simp add: path_dirname_def)
  next
    case (Some e)
    from dirname_end_bounds [OF Some] have e: "1 \<le> e" "e < length p - 1" by auto
    then show ?thesis using p Some by (auto simp: path_dirname_def)
  qed
qed

lemma path_resolve_absolute: "prefix ''/'' (path_resolve wd p)"
  by (simp add: path_resolve_def)

function venv_walk :: "fsys \<Rightarrow> string \<Rightarrow> string \<Rightarrow> string option" where
  "venv_walk fs workspaceRoot current =
     (if \<not> startsWith current (path_resolve (cwd fs) workspaceRoot) then None
      else if existsSync fs (path_join [current, ''.venv''])
              \<and> statSync_isDirectory fs (path_join [current, ''.venv'']) = Inr True
      then Some (path_join [current, ''.venv''])
      else if current = path_resolve (cwd fs) workspaceRoot then None
      else venv_walk fs workspaceRoot (path_dirname current))"
  by pat_completeness auto
termination
proof (relation "measure (\<lambda>(fs, workspaceRoot, current). length current)")
  show "wf (measure (\<lambda>(fs, workspaceRoot, current). length current))" by simp
next
  fix fs :: fsys and workspaceRoot current :: string
  assume s: "\<not> \<not> startsWith current (path_resolve (cwd fs) workspaceRoot)"
    and n: "current \<noteq> path_resolve (cwd fs) workspaceRoot"
  from s have pre: "prefix (path_resolve (cwd fs) workspaceRoot) current"
    by (simp add: startsWith_def)
  with path_resolve_absolute have a: "prefix ''/'' current"
    using prefix_order.trans by blast
  have "current \<noteq> ''/''"
  proof
    assume c: "current = ''/''"
    with pre have "path_resolve (cwd fs) workspaceRoot = ''/''"
      by (auto simp: path_resolve_def prefix_def Cons_eq_append_conv)
    with n c show False by simp
  qed
  with a have "length (path_dirname current) < length current"
    by (rule path_dirname_shorter)
  then show "((fs, workspaceRoot, path_dirname current), (fs, workspaceRoot, current))
      \<in> measure (\<lambda>(fs, workspaceRoot, current). length current)"
    by simp
qed

declare venv_walk.simps [simp del]

definition findVenvForFile :: "fsys \<Rightarrow> string \<Rightarrow> string \<Rightarrow> error + string option" where
  "findVenvForFile fs filePath workspaceRoot =
     (case statSync_isDirectory fs filePath of
        Inl e \<Rightarrow> Inl e
      | Inr isDir \<Rightarrow>
          Inr (venv_walk fs workspaceRoot (if isDir then filePath else path_dirname filePath)))"

definition sibling_fs :: fsys where
  "sibling_fs =
     \<lparr>tree = Dir [(''ws'', Dir []),
                  (''ws2'', Dir [(''.venv'', Dir []), (''app.py'', File [])])],
      cwd = ''/''\<rparr>"

lemma sibling_dirname: "path_dirname ''/ws2/app.py'' = ''/ws2''"
  by (simp add: path_dirname_def)

text \<open>
  Claim C8 fails on the code: the walk is bounded by \<open>current.startsWith(root)\<close>, a
  comparison of strings, and a directory beside the workspace root whose name extends
  the root's name passes it. With the workspace root \<open>/ws\<close>, the file \<open>/ws2/app.py\<close> and
  a directory \<open>/ws2/.venv\<close>, the walk starts outside the root's subtree and returns the
  venv found there.
\<close>

theorem findVenvForFile_sibling_prefix:
  "findVenvForFile sibling_fs ''/ws2/app.py'' ''/ws'' = Inr (Some ''/ws2/.venv'')"
  by (simp add: findVenvForFile_def fs_eval sibling_fs_def sibling_dirname venv_walk.simps
      path_resolve_def resolve_segs_def startsWith_def)

text \<open>The directories the walk inspects, in order, and what it looks for in each.\<close>

function venv_walk_dirs :: "string \<Rightarrow> string \<Rightarrow> string \<Rightarrow> string list" where
  "venv_walk_dirs wd workspaceRoot current =
     (if \<not> startsWith current (path_resolve wd workspaceRoot) then []
      else current #
        (if current = path_resolve wd workspaceRoot then []
         else venv_walk_dirs wd workspaceRoot (path_dirname current)))"
  by pat_completeness auto
termination
proof (relation "measure (\<lambda>(wd, workspaceRoot, current). length current)")
  show "wf (measure (\<lambda>(wd, workspaceRoot, current). length current))" by simp
next
  fix wd workspaceRoot current :: string
  assume s: "\<not> \<not> startsWith current (path_resolve wd workspaceRoot)"
    and n: "current \<noteq> path_resolve wd workspaceRoot"
  from s have pre: "prefix (path_resolve wd workspaceRoot) current"
    by (simp add: startsWith_def)
  with path_resolve_absolute have a: "prefix ''/'' current"
    using prefix_order.trans by blast
  have "current \<noteq> ''/''"
  proof
    assume c: "current = ''/''"
    with pre have "path_resolve wd workspaceRoot = ''/''"
      by (auto simp: path_resolve_def prefix_def Cons_eq_append_conv)
    with n c show False by simp
  qed
  with a have "length (path_dirname current) < length current"
    by (rule path_dirname_shorter)
  then show "((wd, workspaceRoot, path_dirname current), (wd, workspaceRoot, current))
      \<in> measure (\<lambda>(wd, workspaceRoot, current). length current)"
    by simp
qed

declare venv_walk_dirs.simps [simp del]

definition has_venv :: "fsys \<Rightarrow> string \<Rightarrow> bool" where
  "has_venv fs dir =
     (existsSync fs (path_join [dir, ''.venv''])
      \<and> statSync_isDirectory fs (path_join [dir, ''.venv'']) = Inr True)"

lemma venv_walk_first:
  "venv_walk fs workspaceRoot current =
     map_option (\<lambda>dir. path_join [dir, ''.venv''])
       (find (has_venv fs) (venv_walk_dirs (cwd fs) workspaceRoot current))"
proof (induction fs workspaceRoot current rule: venv_walk.induct)
  case (1 fs workspaceRoot current)
  show ?case
  proof (cases "has_venv fs current")
    case True
    then have "existsSync fs (path_join [current, ''.venv''])
        \<and> statSync_isDirectory fs (path_join [current, ''.venv'']) = Inr True"
      by (simp add: has_venv_def)
    with True show ?thesis
      by (subst venv_walk.simps, subst venv_walk_dirs.simps) simp
  next
    case False
    then have c: "\<not> (existsSync fs (path_join [current, ''.venv''])
        \<and> statSync_isDirectory fs (path_join [current, ''.venv'']) = Inr True)"
      by (simp add: has_venv_def)
    show ?thesis
    proof (cases "startsWith current (path_resolve (cwd fs) workspaceRoot)
        \<and> current \<noteq> path_resolve (cwd fs) workspaceRoot")
      case True
      with c have "venv_walk fs workspaceRoot (path_dirname current) =
          map_option (\<lambda>dir. path_join [dir, ''.venv''])
            (find (has_venv fs) (venv_walk_dirs (cwd fs) workspaceRoot (path_dirname current)))"
        by (intro "1.IH") auto
      with True c False show ?thesis
        by (subst venv_walk.simps, subst venv_walk_dirs.simps) auto
    next
      case stop: False
      with c False show ?thesis
        by (subst venv_walk.simps, subst venv_walk_dirs.simps) auto
    qed
  qed
qed

lemma findVenvForFile_existing:
  "node_at fs filePath = Inr n \<Longrightarrow>
     findVenvForFile fs filePath workspaceRoot =
       Inr (map_option (\<lambda>dir. path_join [dir, ''.venv''])
              (find (has_venv fs)
                 (venv_walk_dirs (cwd fs) workspaceRoot
                    (case n of Dir es \<Rightarrow> filePath | File c \<Rightarrow> path_dirname filePath))))"
  by (cases n) (simp_all add: findVenvForFile_def statSync_isDirectory_def venv_walk_first)

lemma findVenvForFile_absent:
  "node_at fs filePath = Inr n \<Longrightarrow>
   \<forall>dir \<in> set (venv_walk_dirs (cwd fs) workspaceRoot
                    (case n of Dir es \<Rightarrow> filePath | File c \<Rightarrow> path_dirname filePath)).
      \<not> has_venv fs dir \<Longrightarrow>
     findVenvForFile fs filePath workspaceRoot = Inr None"
  by (simp add: findVenvForFile_existing find_None_iff)

text \<open>On a path that does not exist \<open>findVenvForFile\<close> raises the error of its first
  \<open>statSync\<close>, which no \<open>existsSync\<close> guards.\<close>

lemma findVenvForFile_missing:
  "node_at fs filePath = Inl e \<Longrightarrow>
     findVenvForFile fs filePath workspaceRoot = Inl (FsError e filePath)"
  by (simp add: findVenvForFile_def statSync_isDirectory_def)

lemma isVenvStale_missing_manifest:
  "readFileSync fs (path_join [v, HASH_FILENAME]) = Inr s \<Longrightarrow> node_at fs m = Inl e \<Longrightarrow>
     isVenvStale fs v m = Inl (FsError e m)"
  by (auto simp: isVenvStale_def readStoredHash_def hashFile_def readFileSync_def existsSync_def
      split: sum.splits)

lemma discover_missing_root:
  "readdirSync fs workspaceRoot = Inl e \<Longrightarrow> discoverSubprojects cfg collate fs workspaceRoot = []"
  by (simp add: discoverSubprojects_def scan_def js_sort_def)

lemma findRequirementsFile_none:
  "\<not> existsSync fs (path_join [p, ''requirements.txt'']) \<Longrightarrow>
   \<not> existsSync fs (path_join [p, ''requirements-dev.txt'']) \<Longrightarrow>
   \<not> existsSync fs (path_join [p, ''requirements-cpu.txt'']) \<Longrightarrow>
     findRequirementsFile fs p = None"
  by (simp add: findRequirementsFile_def)

text \<open>
  Claim C9 (as amended). A workspace directory that cannot be listed gives an empty
  discovery result. A venv without a stored hash file gives an absent stored hash and a
  stale verdict, whatever the manifest path, also one that does not exist. A project
  without any candidate manifest gives an absent manifest. \<open>findVenvForFile\<close> on a path
  that exists never raises: it returns the \<open>.venv\<close> of the first directory it inspects
  that has one as a directory, and absent when none of them has. \<open>isVenvStale\<close> on a
  manifest path that does not exist raises the error of reading it when the venv has a
  stored hash.
\<close>

theorem missing_entities:
  "(readdirSync fs workspaceRoot = Inl e \<longrightarrow>
      discoverSubprojects cfg collate fs workspaceRoot = []) \<and>
   (\<not> existsSync fs (path_join [v, HASH_FILENAME]) \<longrightarrow>
      readStoredHash fs v = Inr None \<and> isVenvStale fs v m = Inr True) \<and>
   (\<not> existsSync fs (path_join [p, ''requirements.txt'']) \<and>
    \<not> existsSync fs (path_join [p, ''requirements-dev.txt'']) \<and>
    \<not> existsSync fs (path_join [p, ''requirements-cpu.txt'']) \<longrightarrow>
      findRequirementsFile fs p = None) \<and>
   (node_at fs filePath = Inr n \<longrightarrow>
      findVenvForFile fs filePath workspaceRoot =
        Inr (map_option (\<lambda>dir. path_join [dir, ''.venv''])
               (find (has_venv fs)
                  (venv_walk_dirs (cwd fs) workspaceRoot
                     (case n of Dir es \<Rightarrow> filePath | File c \<Rightarrow> path_dirname filePath))))) \<and>
   (node_at fs filePath = Inr n \<and>
    (\<forall>dir \<in> set (venv_walk_dirs (cwd fs) workspaceRoot
                     (case n of Dir es \<Rightarrow> filePath | File c \<Rightarrow> path_dirname filePath)).
       \<not> has_venv fs dir) \<longrightarrow>
      findVenvForFile fs filePath workspaceRoot = Inr None) \<and>
   (readFileSync fs (path_join [v, HASH_FILENAME]) = Inr s \<and> node_at fs m = Inl e' \<longrightarrow>
      isVenvStale fs v m = Inl (FsError e' m))"
  using discover_missing_root [of fs workspaceRoot e cfg collate]
    isVenvStale_no_hash [of fs v m] findRequirementsFile_none [of fs p]
    findVenvForFile_existing [of fs filePath n workspaceRoot]
    findVenvForFile_absent [of fs filePath n workspaceRoot]
    isVenvStale_missing_manifest [of fs v s m e']
  by (simp add: readStoredHash_def)

lemma sibling_walk_ws2:
  "venv_walk_dirs ''/'' ''/ws2'' ''/ws2'' = [''/ws2'']"
  by (simp add: venv_walk_dirs.simps path_resolve_def resolve_segs_def norm_segs_def norm_step_def
      isAbsolute_def startsWith_def)

lemma sibling_walk_ws:
  "venv_walk_dirs ''/'' ''/ws'' ''/ws'' = [''/ws'']"
  by (simp add: venv_walk_dirs.simps path_resolve_def resolve_segs_def norm_segs_def norm_step_def
      isAbsolute_def startsWith_def)

theorem missing_entities_witness:
  "discoverSubprojects default_config (\<lambda>a b. 0) sibling_fs ''/nowhere'' = [] \<and>
   readStoredHash sibling_fs ''/ws2/.venv'' = Inr None \<and>
   isVenvStale sibling_fs ''/ws2/.venv'' ''/ws2/requirements.txt'' = Inr True \<and>
   findRequirementsFile sibling_fs ''/ws2'' = None \<and>
   findVenvForFile sibling_fs ''/ws2/app.py'' ''/ws2'' = Inr (Some ''/ws2/.venv'') \<and>
   findVenvForFile sibling_fs ''/ws'' ''/ws'' = Inr None \<and>
   isVenvStale (project_fs manifest_v2 [(''.requirements-hash'', File ''abc'')])
       ''/p/.venv'' ''/p/missing.txt'' = Inl (FsError ENOENT ''/p/missing.txt'')"
proof -
  note ev = fs_eval sibling_fs_def
  note A = missing_entities [where fs = sibling_fs and workspaceRoot = "''/nowhere''"
      and e = "FsError ENOENT ''/nowhere''" and cfg = default_config and collate = "\<lambda>a b. 0"
      and v = "''/ws2/.venv''" and m = "''/ws2/requirements.txt''" and p = "''/ws2''"]
  note B = missing_entities [where fs = sibling_fs and workspaceRoot = "''/ws2''"
      and filePath = "''/ws2/app.py''" and n = "File []"]
  note D = missing_entities [where fs = sibling_fs and workspaceRoot = "''/ws''"
      and filePath = "''/ws''" and n = "Dir []"]
  note C = missing_entities [where fs = "project_fs manifest_v2 [(''.requirements-hash'', File ''abc'')]"
      and v = "''/p/.venv''" and m = "''/p/missing.txt''" and s = "''abc''" and e' = ENOENT]
  have 1: "discoverSubprojects default_config (\<lambda>a b. 0) sibling_fs ''/nowhere'' = []"
    by (rule A [THEN conjunct1, THEN mp]) (simp add: ev)
  have 2: "readStoredHash sibling_fs ''/ws2/.venv'' = Inr None \<and>
      isVenvStale sibling_fs ''/ws2/.venv'' ''/ws2/requirements.txt'' = Inr True"
    by (rule A [THEN conjunct2, THEN conjunct1, THEN mp]) (simp add: ev)
  have 3: "findRequirementsFile sibling_fs ''/ws2'' = None"
    by (rule A [THEN conjunct2, THEN conjunct2, THEN conjunct1, THEN mp]) (simp add: ev)
  have n4: "node_at sibling_fs ''/ws2/app.py'' = Inr (File [])"
    by (simp add: ev)
  have 4: "findVenvForFile sibling_fs ''/ws2/app.py'' ''/ws2'' = Inr (Some ''/ws2/.venv'')"
    using B [THEN conjunct2, THEN conjunct2, THEN conjunct2, THEN conjunct1, THEN mp, OF n4]
    by (simp add: sibling_dirname sibling_walk_ws2 has_venv_def ev)
  have 5: "findVenvForFile sibling_fs ''/ws'' ''/ws'' = Inr None"
    by (rule D [THEN conjunct2, THEN conjunct2, THEN conjunct2, THEN conjunct2, THEN conjunct1, THEN mp])
      (simp add: sibling_walk_ws has_venv_def ev)
  have 6: "isVenvStale (project_fs manifest_v2 [(''.requirements-hash'', File ''abc'')])
       ''/p/.venv'' ''/p/missing.txt'' = Inl (FsError ENOENT ''/p/missing.txt'')"
    by (rule C [THEN conjunct2, THEN conjunct2, THEN conjunct2, THEN conjunct2, THEN conjunct2, THEN mp])
      (simp add: fs_eval)
  from 1 2 3 4 5 6 show ?thesis by simp
qed

text \<open>
  Claim C9 as stated fails for \<open>isVenvStale\<close>: on a manifest path that does not exist,
  with a stored hash in the venv, it raises the error of reading the manifest.
\<close>

theorem missing_manifest_raises_counterexample:
  "existsSync (project_fs manifest_v2 [(''.requirements-hash'', File ''abc'')])
       ''/p/.venv/.requirements-hash'' \<and>
   \<not> existsSync (project_fs manifest_v2 [(''.requirements-hash'', File ''abc'')]) ''/p/missing.txt'' \<and>
   isVenvStale (project_fs manifest_v2 [(''.requirements-hash'', File ''abc'')])
       ''/p/.venv'' ''/p/missing.txt'' = Inl (FsError ENOENT ''/p/missing.txt'')"
  by (simp add: isVenvStale_def readStoredHash_def hashFile_def fs_eval)

subsection \<open>Traces of the lifecycle\<close>

lemma written_files_append: "written_files (xs @ ys) = written_files xs @ written_files ys"
  by (induction xs rule: written_files.induct) auto


lemma run_commands_append: "run_commands (xs @ ys) = run_commands xs @ run_commands ys"
  by (induction xs rule: run_commands.induct) auto

lemma probes_append: "probes (xs @ ys) = probes xs @ probes ys"
  by (induction xs rule: probes.induct) auto

lemma replay_append: "replay host (xs @ ys) fs = replay host ys (replay host xs fs)"
  by (induction host xs fs rule: replay.induct) auto

text \<open>A step from \<open>w\<close> to \<open>w'\<close> is accounted for by the events \<open>new\<close>: they are what the
  step added to the trace, and replaying them gives the file system after the step.\<close>

definition accounted :: "env \<Rightarrow> world \<Rightarrow> world \<Rightarrow> event list \<Rightarrow> bool" where
  "accounted host w w' new \<longleftrightarrow>
     w_trace w' = w_trace w @ new \<and> w_fs w' = replay host new (w_fs w)"

lemma accounted_refl: "accounted host w w []"
  by (simp add: accounted_def)

lemma accounted_trans:
  "accounted host w w1 n1 \<Longrightarrow> accounted host w1 w2 n2 \<Longrightarrow> accounted host w w2 (n1 @ n2)"
  by (simp add: accounted_def replay_append)

lemma accounted_new_events: "accounted host w w' new \<Longrightarrow> new_events w w' = new"
  by (simp add: accounted_def new_events_def)


lemma accounted_emit_probe: "accounted host w (emit (Probe c a) w) [Probe c a]"
  by (simp add: accounted_def emit_def)

















lemma resolvePackageManager_step:
  assumes "resolvePackageManager host w projectPath = (w0, r)"
  shows "\<exists>pr. accounted host w w0 pr \<and> failed_commands pr = [] \<and> written_files pr = [] \<and>
           run_commands pr = [] \<and>
           probes pr = (if detectPackageManager (settings host) (w_fs w) projectPath = Inr ''uv''
                        then [(''uv'', [''--version''])] else [])"
proof (cases "detectPackageManager (settings host) (w_fs w) projectPath = Inr ''uv''")
  case True
  with assms have "w0 = emit (Probe ''uv'' [''--version'']) w"
    by (auto simp: resolvePackageManager_def isUvAvailable_def split: if_splits)
  then have "accounted host w w0 [Probe ''uv'' [''--version'']]"
    by (simp add: accounted_emit_probe)
  with True show ?thesis
    by (intro exI [of _ "[Probe ''uv'' [''--version'']]"]) simp
next
  case False
  with assms have "w0 = w"
    by (auto simp: resolvePackageManager_def split: sum.splits if_splits)
  with False show ?thesis
    by (intro exI [of _ "[]"]) (simp add: accounted_refl)
qed






definition usable_venv :: "(string \<times> node) list" where
  "usable_venv = [(''bin'', Dir [(''python'', File [])])]"

definition obliging_host :: env where
  "obliging_host =
     \<lparr>settings = default_config, uv_available = True,
      exec_cmd = (\<lambda>c a d fs. (fs, Exited (Some 0)))\<rparr>"


definition fresh :: "fsys \<Rightarrow> world" where
  "fresh fs = \<lparr>w_fs = fs, w_trace = []\<rparr>"

text \<open>A project with a lockfile, a manifest and a venv.\<close>

definition locked_project_fs :: "string \<Rightarrow> (string \<times> node) list \<Rightarrow> fsys" where
  "locked_project_fs manifest venv_entries =
     \<lparr>tree = Dir [(''p'', Dir [(''uv.lock'', File []), (''requirements.txt'', File manifest),
                              (''.venv'', Dir venv_entries)])],
      cwd = ''/''\<rparr>"

text \<open>A project with a venv and nothing else.\<close>

definition bare_project_fs :: "(string \<times> node) list \<Rightarrow> fsys" where
  "bare_project_fs venv_entries =
     \<lparr>tree = Dir [(''p'', Dir [(''.venv'', Dir venv_entries)])], cwd = ''/''\<rparr>"

lemmas run_eval = createOrUpdateVenv_def resolvePackageManager_def isUvAvailable_def
  detectPackageManager_def up_to_date_def create_venv_def install_step_def
  install_requirements_def runCommand_def emit_def Let_def resolved_manifest_def
  requested_force_def findRequirementsFile_def isVenvValid_def getVenvPython_def
  process_platform_def isVenvStale_def readStoredHash_def hashFile_def writeHash_def
  truthy_def path_basename_def default_config_def fresh_def usable_venv_def
  new_events_def outcome_error_def locked_project_fs_def bare_project_fs_def


lemma resolvePackageManager_fs:
  "resolvePackageManager host w projectPath = (w0, r) \<Longrightarrow> w_fs w0 = w_fs w"
  by (auto simp: resolvePackageManager_def isUvAvailable_def emit_def split: sum.splits if_splits)

lemma resolvePackageManager_detected:
  assumes "detectPackageManager (settings host) (w_fs w) projectPath = Inr detected"
  shows "resolvePackageManager host w projectPath =
           (if detected = ''uv'' then emit (Probe ''uv'' [''--version'']) w else w,
            Inr (if detected = ''uv'' \<and> \<not> uv_available host then ''venv+pip'' else detected))"
  using assms by (simp add: resolvePackageManager_def isUvAvailable_def)

text \<open>
  Claim C2 (as amended). When the detection of the package manager returns, the venv
  validates,
  \<open>force\<close> is false, a (non-empty) manifest path is resolved and the venv is not stale
  with respect to it, \<open>createOrUpdateVenv\<close> returns \<open>{created: false, updated: false}\<close>; it
  runs no command through \<open>runCommand\<close>, writes no file and leaves the file system as it
  is. The only process it starts is the \<open>uv --version\<close> probe of
  \<open>resolvePackageManager\<close>, and it starts it exactly when the detected manager is \<open>uv\<close>.
\<close>

theorem createOrUpdateVenv_fast_path:
  assumes det: "detectPackageManager (settings host) (w_fs w) projectPath = Inr detected"
    and valid: "isVenvValid (w_fs w) (path_join [projectPath, ''.venv''])"
    and nf: "\<not> requested_force opts"
    and rf: "resolved_manifest opts (w_fs w) projectPath = Some r"
    and tr: "truthy r"
    and ns: "isVenvStale (w_fs w) (path_join [projectPath, ''.venv'']) r = Inr False"
  shows "\<exists>w'. createOrUpdateVenv host w projectPath opts =
           (w', Inr \<lparr>res_venvPath = path_join [projectPath, ''.venv''],
                     res_manager = (if detected = ''uv'' \<and> \<not> uv_available host
                                    then ''venv+pip'' else detected),
                     res_created = False, res_updated = False\<rparr>) \<and>
           w_fs w' = w_fs w \<and>
           new_events w w' = (if detected = ''uv'' then [Probe ''uv'' [''--version'']] else []) \<and>
           run_commands (new_events w w') = [] \<and>
           written_files (new_events w w') = []"
proof -
  let ?w0 = "if detected = ''uv'' then emit (Probe ''uv'' [''--version'']) w else w"
  have fs0: "w_fs ?w0 = w_fs w" by (simp add: emit_def)
  have g: "up_to_date (w_fs ?w0) (isVenvValid (w_fs ?w0) (path_join [projectPath, ''.venv'']))
      (requested_force opts) (resolved_manifest opts (w_fs ?w0) projectPath)
      (path_join [projectPath, ''.venv'']) = Inr True"
    unfolding fs0 using valid nf rf tr ns by (simp add: up_to_date_def)
  have "createOrUpdateVenv host w projectPath opts =
           (?w0, Inr \<lparr>res_venvPath = path_join [projectPath, ''.venv''],
                      res_manager = (if detected = ''uv'' \<and> \<not> uv_available host
                                     then ''venv+pip'' else detected),
                      res_created = False, res_updated = False\<rparr>)"
    unfolding createOrUpdateVenv_def resolvePackageManager_detected [OF det] Let_def
    by (simp only: prod.case sum.case g bool.case)
  moreover have "new_events w ?w0 = (if detected = ''uv'' then [Probe ''uv'' [''--version'']] else [])"
    by (simp add: new_events_def emit_def)
  ultimately show ?thesis using fs0 by (intro exI [of _ ?w0]) simp
qed

text \<open>A venv with an interpreter and the stored hash of \<open>manifest\<close>.\<close>

definition synced_venv :: "string \<Rightarrow> (string \<times> node) list" where
  "synced_venv manifest =
     [(''bin'', Dir [(''python'', File [])]),
      (''.requirements-hash'', File (md5_hex manifest @ [CHR 0x0A]))]"

theorem createOrUpdateVenv_fast_path_witness:
  "\<exists>w'. createOrUpdateVenv obliging_host
            (fresh (project_fs manifest_v2 (synced_venv manifest_v2))) ''/p'' None
          = (w', Inr \<lparr>res_venvPath = ''/p/.venv'', res_manager = ''venv+pip'',
                       res_created = False, res_updated = False\<rparr>) \<and>
        w_fs w' = project_fs manifest_v2 (synced_venv manifest_v2) \<and>
        new_events (fresh (project_fs manifest_v2 (synced_venv manifest_v2))) w' = []"
proof -
  let ?W = "fresh (project_fs manifest_v2 (synced_venv manifest_v2))"
  note ev = run_eval fs_eval synced_venv_def obliging_host_def trim_md5_line
  have v: "path_join [''/p'', ''.venv''] = ''/p/.venv''" by (simp add: fs_eval)
  have det: "detectPackageManager (settings obliging_host) (w_fs ?W) ''/p'' = Inr ''venv+pip''"
    by (simp add: ev)
  have valid: "isVenvValid (w_fs ?W) (path_join [''/p'', ''.venv''])" by (simp add: ev)
  have nf: "\<not> requested_force None" by (simp add: requested_force_def)
  have rf: "resolved_manifest None (w_fs ?W) ''/p'' = Some ''/p/requirements.txt''"
    by (simp add: ev)
  have tr: "truthy ''/p/requirements.txt''" by (simp add: truthy_def)
  have ns: "isVenvStale (w_fs ?W) (path_join [''/p'', ''.venv'']) ''/p/requirements.txt'' = Inr False"
    by (simp add: ev)
  have fs: "w_fs ?W = project_fs manifest_v2 (synced_venv manifest_v2)" by (simp add: fresh_def)
  from createOrUpdateVenv_fast_path [OF det valid nf rf tr ns]
  show ?thesis unfolding v fs by auto
qed

text \<open>A project whose \<open>pyproject.toml\<close> is a directory, with a manifest and a venv.\<close>

definition odd_project_fs :: "string \<Rightarrow> (string \<times> node) list \<Rightarrow> fsys" where
  "odd_project_fs manifest venv_entries =
     \<lparr>tree = Dir [(''p'', Dir [(''pyproject.toml'', Dir []), (''requirements.txt'', File manifest),
                              (''.venv'', Dir venv_entries)])],
      cwd = ''/''\<rparr>"

text \<open>
  Claim C2 as stated fails in two places. Where it says that no external process is
  spawned: a project with a lockfile is detected as a \<open>uv\<close> project, and
  \<open>resolvePackageManager\<close> then runs \<open>uv --version\<close> before the fast path is reached. And
  where it says that a result is returned: the package manager is resolved first, and in
  a project whose \<open>pyproject.toml\<close> cannot be read the detection raises, although the venv
  validates and is not stale.
\<close>

theorem createOrUpdateVenv_probe_counterexample:
  "isVenvValid (locked_project_fs manifest_v2 (synced_venv manifest_v2)) ''/p/.venv'' \<and>
   findRequirementsFile (locked_project_fs manifest_v2 (synced_venv manifest_v2)) ''/p''
     = Some ''/p/requirements.txt'' \<and>
   isVenvStale (locked_project_fs manifest_v2 (synced_venv manifest_v2)) ''/p/.venv''
       ''/p/requirements.txt'' = Inr False \<and>
   createOrUpdateVenv obliging_host
       \<lparr>w_fs = locked_project_fs manifest_v2 (synced_venv manifest_v2), w_trace = []\<rparr> ''/p'' None
     = (\<lparr>w_fs = locked_project_fs manifest_v2 (synced_venv manifest_v2),
         w_trace = [Probe ''uv'' [''--version'']]\<rparr>,
        Inr \<lparr>res_venvPath = ''/p/.venv'', res_manager = ''uv'',
              res_created = False, res_updated = False\<rparr>) \<and>
   isVenvValid (odd_project_fs manifest_v2 (synced_venv manifest_v2)) ''/p/.venv'' \<and>
   findRequirementsFile (odd_project_fs manifest_v2 (synced_venv manifest_v2)) ''/p''
     = Some ''/p/requirements.txt'' \<and>
   isVenvStale (odd_project_fs manifest_v2 (synced_venv manifest_v2)) ''/p/.venv''
       ''/p/requirements.txt'' = Inr False \<and>
   createOrUpdateVenv obliging_host
       \<lparr>w_fs = odd_project_fs manifest_v2 (synced_venv manifest_v2), w_trace = []\<rparr> ''/p'' None
     = (\<lparr>w_fs = odd_project_fs manifest_v2 (synced_venv manifest_v2), w_trace = []\<rparr>,
        Inl (FsError EISDIR ''/p/pyproject.toml''))"
  by (simp add: run_eval fs_eval synced_venv_def obliging_host_def odd_project_fs_def trim_md5_line)

lemma createOrUpdateVenv_result:
  assumes run: "createOrUpdateVenv host w projectPath opts = (w', Inr r)"
  shows "\<exists>fast. up_to_date (w_fs w) (isVenvValid (w_fs w) (path_join [projectPath, ''.venv'']))
             (requested_force opts) (resolved_manifest opts (w_fs w) projectPath)
             (path_join [projectPath, ''.venv'']) = Inr fast \<and>
           res_created r = (\<not> fast \<and> \<not> isVenvValid (w_fs w) (path_join [projectPath, ''.venv''])) \<and>
           res_updated r = (\<not> fast \<and> isVenvValid (w_fs w) (path_join [projectPath, ''.venv'']))"
proof -
  let ?v = "path_join [projectPath, ''.venv'']"
  obtain w0 r0 where r0: "resolvePackageManager host w projectPath = (w0, r0)"
    by (cases "resolvePackageManager host w projectPath")
  from resolvePackageManager_fs [OF r0] have fs0: "w_fs w0 = w_fs w" .
  let ?rf = "resolved_manifest opts (w_fs w) projectPath"
  let ?valid = "isVenvValid (w_fs w) ?v"
  let ?g = "up_to_date (w_fs w) ?valid (requested_force opts) ?rf ?v"
  let ?w1 = "emit ChannelShow (emit (ChannelCreate ''py-toolkit'') w0)"
  show ?thesis
  proof (cases r0)
    case (Inl e)
    with run r0 show ?thesis by (simp add: createOrUpdateVenv_def)
  next
    case (Inr mgr)
    let ?rfa = "resolved_manifest opts (w_fs w0) projectPath"
    let ?valida = "isVenvValid (w_fs w0) ?v"
    have "(case up_to_date (w_fs w0) ?valida (requested_force opts) ?rfa ?v of
         Inl e \<Rightarrow> (w0, Inl e)
       | Inr True \<Rightarrow> (w0, Inr \<lparr>res_venvPath = ?v, res_manager = mgr,
                                res_created = False, res_updated = False\<rparr>)
       | Inr False \<Rightarrow>
           (case (if \<not> ?valida then create_venv host mgr ?v projectPath ?w1 else (?w1, Inr ())) of
              (w2, Inl e) \<Rightarrow> (w2, Inl e)
            | (w2, Inr u) \<Rightarrow>
                (case install_step host mgr ?v projectPath ?rfa w2 of
                   (w3, Inl e) \<Rightarrow> (w3, Inl e)
                 | (w3, Inr u') \<Rightarrow>
                     (emit (ChannelLine ''Done.'') w3,
                      Inr \<lparr>res_venvPath = ?v, res_manager = mgr,
                            res_created = \<not> ?valida, res_updated = ?valida\<rparr>)))) = (w', Inr r)"
      using run unfolding createOrUpdateVenv_def Let_def r0 Inr
      by (simp only: prod.case sum.case)
    note body = this [unfolded fs0]
    show ?thesis
    proof (cases ?g)
      case (Inl e)
      with body show ?thesis by simp
    next
      case g: (Inr fast)
      show ?thesis
      proof (cases fast)
        case True
        with body g have "r = \<lparr>res_venvPath = ?v, res_manager = mgr,
                                res_created = False, res_updated = False\<rparr>" by simp
        with g True show ?thesis by (intro exI [of _ True]) simp
      next
        case False
        with body g have "r = \<lparr>res_venvPath = ?v, res_manager = mgr,
                                res_created = \<not> ?valid, res_updated = ?valid\<rparr>"
          by (auto simp: fs0 split: prod.splits sum.splits if_splits)
        with g False show ?thesis by (intro exI [of _ False]) simp
      qed
    qed
  qed
qed

lemma up_to_date_fast:
  "up_to_date fs valid force rf v = Inr fast \<Longrightarrow>
     fast \<longleftrightarrow> valid \<and> \<not> force \<and> (\<exists>m. rf = Some m \<and> truthy m \<and> isVenvStale fs v m = Inr False)"
  by (auto simp: up_to_date_def split: option.splits if_splits sum.splits)

lemma up_to_date_slow:
  "up_to_date fs True force rf v = Inr fast \<Longrightarrow>
     \<not> fast \<longleftrightarrow> force \<or> \<not> present rf \<or> (\<exists>m. rf = Some m \<and> isVenvStale fs v m = Inr True)"
  by (auto simp: up_to_date_def present_def split: option.splits if_splits sum.splits)

lemma createOrUpdateVenv_nothing_to_run:
  assumes res: "resolvePackageManager host w projectPath = (w0, Inr mgr)"
    and mgr: "mgr \<noteq> ''uv''"
    and valid: "isVenvValid (w_fs w) (path_join [projectPath, ''.venv''])"
    and np: "\<not> present (resolved_manifest opts (w_fs w) projectPath)"
  shows "createOrUpdateVenv host w projectPath opts =
           (emit (ChannelLine ''Done.'') (emit ChannelShow (emit (ChannelCreate ''py-toolkit'') w0)),
            Inr \<lparr>res_venvPath = path_join [projectPath, ''.venv''], res_manager = mgr,
                  res_created = False, res_updated = True\<rparr>)"
proof -
  from resolvePackageManager_fs [OF res] have fs0: "w_fs w0 = w_fs w" .
  let ?rf = "resolved_manifest opts (w_fs w) projectPath"
  have g: "up_to_date (w_fs w) True (requested_force opts) ?rf (path_join [projectPath, ''.venv''])
      = Inr False"
    using np by (auto simp: up_to_date_def present_def split: option.splits)
  have i: "install_step host mgr (path_join [projectPath, ''.venv'']) projectPath ?rf w2 = (w2, Inr ())"
    for w2
    using np mgr by (auto simp: install_step_def present_def Let_def split: option.splits)
  have valid0: "isVenvValid (w_fs w0) (path_join [projectPath, ''.venv''])"
    using valid by (simp add: fs0)
  have g0: "up_to_date (w_fs w0) True (requested_force opts)
      (resolved_manifest opts (w_fs w0) projectPath) (path_join [projectPath, ''.venv'']) = Inr False"
    using g by (simp add: fs0)
  have i0: "install_step host mgr (path_join [projectPath, ''.venv'']) projectPath
      (resolved_manifest opts (w_fs w0) projectPath) w2 = (w2, Inr ())" for w2
    using i [of w2] by (simp add: fs0)
  show ?thesis
    unfolding createOrUpdateVenv_def Let_def res
    by (simp add: valid0 g0 i0)
qed

text \<open>
  Claim C10. When the venv was already valid and \<open>createOrUpdateVenv\<close> returns a result,
  \<open>created\<close> is false, and \<open>updated\<close> is true exactly when the fast path was not taken:
  \<open>force\<close> is true, or no (non-empty) manifest path was resolved, or the manifest is stale.
  With a valid venv, no manifest and a resolved manager other than \<open>uv\<close>, the run returns
  \<open>{created: false, updated: true}\<close> although it runs no command, writes no file and
  leaves the file system as it is.
\<close>

theorem createOrUpdateVenv_updated_flag:
  "(createOrUpdateVenv host w projectPath opts = (w', Inr r) \<and>
    isVenvValid (w_fs w) (path_join [projectPath, ''.venv'']) \<longrightarrow>
      res_created r = False \<and>
      (res_updated r \<longleftrightarrow>
         requested_force opts \<or> \<not> present (resolved_manifest opts (w_fs w) projectPath) \<or>
         (\<exists>m. resolved_manifest opts (w_fs w) projectPath = Some m \<and>
              isVenvStale (w_fs w) (path_join [projectPath, ''.venv'']) m = Inr True))) \<and>
   (resolvePackageManager host w projectPath = (w0, Inr mgr) \<and> mgr \<noteq> ''uv'' \<and>
    isVenvValid (w_fs w) (path_join [projectPath, ''.venv'']) \<and>
    \<not> present (resolved_manifest opts (w_fs w) projectPath) \<longrightarrow>
      (\<exists>w1. createOrUpdateVenv host w projectPath opts =
               (w1, Inr \<lparr>res_venvPath = path_join [projectPath, ''.venv''], res_manager = mgr,
                         res_created = False, res_updated = True\<rparr>) \<and>
            run_commands (new_events w w1) = [] \<and> written_files (new_events w w1) = [] \<and>
            w_fs w1 = w_fs w))"
proof (intro conjI impI)
  assume a: "createOrUpdateVenv host w projectPath opts = (w', Inr r) \<and>
    isVenvValid (w_fs w) (path_join [projectPath, ''.venv''])"
  then have run: "createOrUpdateVenv host w projectPath opts = (w', Inr r)"
    and valid: "isVenvValid (w_fs w) (path_join [projectPath, ''.venv''])" by simp_all
  from createOrUpdateVenv_result [OF run] valid obtain fast where
    g: "up_to_date (w_fs w) True (requested_force opts) (resolved_manifest opts (w_fs w) projectPath)
          (path_join [projectPath, ''.venv'']) = Inr fast"
    and c: "res_created r = False" and u: "res_updated r = (\<not> fast)"
    by auto
  from c show "res_created r = False" .
  from up_to_date_slow [OF g] u
  show "res_updated r \<longleftrightarrow>
         requested_force opts \<or> \<not> present (resolved_manifest opts (w_fs w) projectPath) \<or>
         (\<exists>m. resolved_manifest opts (w_fs w) projectPath = Some m \<and>
              isVenvStale (w_fs w) (path_join [projectPath, ''.venv'']) m = Inr True)"
    by simp
next
  assume a: "resolvePackageManager host w projectPath = (w0, Inr mgr) \<and> mgr \<noteq> ''uv'' \<and>
    isVenvValid (w_fs w) (path_join [projectPath, ''.venv'']) \<and>
    \<not> present (resolved_manifest opts (w_fs w) projectPath)"
  then have res: "resolvePackageManager host w projectPath = (w0, Inr mgr)" and mgr: "mgr \<noteq> ''uv''"
    and valid: "isVenvValid (w_fs w) (path_join [projectPath, ''.venv''])"
    and np: "\<not> present (resolved_manifest opts (w_fs w) projectPath)" by simp_all
  let ?w1 = "emit (ChannelLine ''Done.'') (emit ChannelShow (emit (ChannelCreate ''py-toolkit'') w0))"
  note run = createOrUpdateVenv_nothing_to_run [OF res mgr valid np]
  from resolvePackageManager_step [OF res] obtain pr where
    a0: "accounted host w w0 pr" and q: "run_commands pr = []" "written_files pr = []" by blast
  have "accounted host w0 ?w1 [ChannelCreate ''py-toolkit'', ChannelShow, ChannelLine ''Done.'']"
    by (simp add: accounted_def emit_def)
  from accounted_trans [OF a0 this]
  have acc: "accounted host w ?w1 (pr @ [ChannelCreate ''py-toolkit'', ChannelShow, ChannelLine ''Done.''])" .
  then have n: "new_events w ?w1 = pr @ [ChannelCreate ''py-toolkit'', ChannelShow, ChannelLine ''Done.'']"
    by (rule accounted_new_events)
  have "w_fs ?w1 = w_fs w"
    using resolvePackageManager_fs [OF res] by (simp add: emit_def)
  with run n q show "\<exists>w1. createOrUpdateVenv host w projectPath opts =
               (w1, Inr \<lparr>res_venvPath = path_join [projectPath, ''.venv''], res_manager = mgr,
                         res_created = False, res_updated = True\<rparr>) \<and>
            run_commands (new_events w w1) = [] \<and> written_files (new_events w w1) = [] \<and>
            w_fs w1 = w_fs w"
    by (intro exI [of _ ?w1]) (simp add: run_commands_append written_files_append)
qed

theorem createOrUpdateVenv_updated_flag_witness:
  "(\<exists>w1. createOrUpdateVenv (obliging_host\<lparr>settings := default_config\<lparr>preferredManagers := []\<rparr>\<rparr>)
            (fresh (bare_project_fs usable_venv)) ''/p'' None
          = (w1, Inr \<lparr>res_venvPath = ''/p/.venv'', res_manager = ''venv+pip'',
                       res_created = False, res_updated = True\<rparr>) \<and>
        run_commands (new_events (fresh (bare_project_fs usable_venv)) w1) = [] \<and>
        written_files (new_events (fresh (bare_project_fs usable_venv)) w1) = [] \<and>
        w_fs w1 = bare_project_fs usable_venv) \<and>
   res_created (projr (snd (createOrUpdateVenv obliging_host
        (fresh (project_fs manifest_v2 usable_venv)) ''/p'' None))) = False \<and>
   res_updated (projr (snd (createOrUpdateVenv obliging_host
        (fresh (project_fs manifest_v2 usable_venv)) ''/p'' None))) = True"
proof -
  let ?host = "obliging_host\<lparr>settings := default_config\<lparr>preferredManagers := []\<rparr>\<rparr>"
  let ?W = "fresh (bare_project_fs usable_venv)"
  note ev = run_eval fs_eval obliging_host_def present_def
  have v: "path_join [''/p'', ''.venv''] = ''/p/.venv''" by (simp add: fs_eval)
  have res: "resolvePackageManager ?host ?W ''/p'' = (?W, Inr ''venv+pip'')"
    by (simp add: ev)
  have valid: "isVenvValid (w_fs ?W) (path_join [''/p'', ''.venv''])" by (simp add: ev)
  have np: "\<not> present (resolved_manifest None (w_fs ?W) ''/p'')" by (simp add: ev)
  have fs: "w_fs ?W = bare_project_fs usable_venv" by (simp add: fresh_def)
  have 1: "\<exists>w1. createOrUpdateVenv ?host ?W ''/p'' None
          = (w1, Inr \<lparr>res_venvPath = ''/p/.venv'', res_manager = ''venv+pip'',
                       res_created = False, res_updated = True\<rparr>) \<and>
        run_commands (new_events ?W w1) = [] \<and> written_files (new_events ?W w1) = [] \<and>
        w_fs w1 = bare_project_fs usable_venv"
    using createOrUpdateVenv_updated_flag [where host = "?host" and w = "?W" and projectPath = "''/p''"
        and opts = None and ?w0.0 = "?W" and mgr = "''venv+pip''", THEN conjunct2, THEN mp]
      res valid np
    unfolding v fs by simp
  let ?W2 = "fresh (project_fs manifest_v2 usable_venv)"
  let ?R = "createOrUpdateVenv obliging_host ?W2 ''/p'' None"
  have isr: "snd ?R = Inr (projr (snd ?R))"
    by (simp add: run_eval fs_eval obliging_host_def)
  then have run: "?R = (fst ?R, Inr (projr (snd ?R)))"
    by (metis surjective_pairing)
  have valid2: "isVenvValid (w_fs ?W2) (path_join [''/p'', ''.venv''])" by (simp add: ev)
  have stale: "resolved_manifest None (w_fs ?W2) ''/p'' = Some ''/p/requirements.txt'' \<and>
      isVenvStale (w_fs ?W2) (path_join [''/p'', ''.venv'']) ''/p/requirements.txt'' = Inr True"
    by (simp add: ev)
  from createOrUpdateVenv_updated_flag [where host = obliging_host and w = "?W2"
      and projectPath = "''/p''" and opts = None and w' = "fst ?R" and r = "projr (snd ?R)",
      THEN conjunct1, THEN mp, OF conjI [OF run valid2]] stale
  have 2: "res_created (projr (snd ?R)) = False \<and> res_updated (projr (snd ?R)) = True"
    by blast
  from 1 2 show ?thesis by blast
qed

end
